theory Spec2Isabelle
  imports Main "HOL-Library.Word"
begin

unbundle bit_operations_syntax

section \<open>Go values: bytes, errors, outcomes\<close>

type_synonym byte = "8 word"
type_synonym uint16 = "16 word"
type_synonym uint32 = "32 word"
type_synonym uint64 = "64 word"

text \<open>
  The errors of the package. \<open>New\<close> is \<^verbatim>\<open>errors.New(msg)\<close>, \<open>Wrap\<close> is
  \<^verbatim>\<open>errors.Wrap(err, msg)\<close>; the others are the sentinel values the code returns
  (\<^verbatim>\<open>io.EOF\<close>, \<^verbatim>\<open>io.ErrUnexpectedEOF\<close> and the two package variables).
\<close>

datatype error =
    ErrChecksumMismatch
  | ErrUnsupportedExtensionType
  | EOF
  | ErrUnexpectedEOF
  | New string
  | Wrap error string

text \<open>
  What a call does: it returns a value, returns an error, or panics (an index or a
  slice bound out of range).
\<close>

datatype 'a result = Ok 'a | Err error | Panic

definition wrap :: "string \<Rightarrow> 'a result \<Rightarrow> 'a result" where
  "wrap msg r = (case r of Err e \<Rightarrow> Err (Wrap e msg) | _ \<Rightarrow> r)"

text \<open>
  \<^verbatim>\<open>copy(dst, src)\<close>: the first \<open>min (len dst) (len src)\<close> elements of \<open>dst\<close> are
  overwritten; the value is the new content of \<open>dst\<close>.
\<close>

definition go_copy :: "'a list \<Rightarrow> 'a list \<Rightarrow> 'a list" where
  "go_copy dst src = take (length dst) src @ drop (length src) dst"

text \<open>\<^verbatim>\<open>copy(dst[pos:], src)\<close> for \<open>pos \<le> len dst\<close>, as the new content of \<open>dst\<close>.\<close>

definition copy_at :: "nat \<Rightarrow> 'a list \<Rightarrow> 'a list \<Rightarrow> 'a list" where
  "copy_at pos dst src = take pos dst @ go_copy (drop pos dst) src"

text \<open>\<^verbatim>\<open>binary.BigEndian\<close>: two and eight byte integers, most significant byte first.\<close>

definition PutUint16 :: "uint16 \<Rightarrow> byte list" where
  "PutUint16 v = [ucast (drop_bit 8 v), ucast v]"

text \<open>
  \<^verbatim>\<open>binary.BigEndian.Uint16(b)\<close> panics when \<open>b\<close> has fewer than two bytes; every caller
  below checks the length first where the source can reach that panic.
\<close>

definition Uint16 :: "byte list \<Rightarrow> uint16" where
  "Uint16 b = push_bit 8 (ucast (b ! 0)) OR ucast (b ! 1)"

definition PutUint64 :: "uint64 \<Rightarrow> byte list" where
  "PutUint64 v = [ucast (drop_bit 56 v), ucast (drop_bit 48 v), ucast (drop_bit 40 v),
     ucast (drop_bit 32 v), ucast (drop_bit 24 v), ucast (drop_bit 16 v),
     ucast (drop_bit 8 v), ucast v]"

definition Uint64 :: "byte list \<Rightarrow> uint64" where
  "Uint64 b = foldl (\<lambda>acc x. push_bit 8 acc OR ucast x) 0 (take 8 b)"

section \<open>entry.go: key share entries\<close>

record KeyShareEntry =
  Group :: uint16
  KeyExchange :: "byte list"

text \<open>\<^verbatim>\<open>uint16(len(entry.KeyExchange)) + 4\<close>, in 16 bits.\<close>

definition KeyShareEntry_Size :: "KeyShareEntry \<Rightarrow> uint16" where
  "KeyShareEntry_Size entry = of_nat (length (KeyExchange entry)) + 4"

text \<open>
  The buffer has \<open>Size()\<close> bytes; \<^verbatim>\<open>data[0:2]\<close> and \<^verbatim>\<open>data[2:4]\<close> panic when it is
  shorter than that, and \<^verbatim>\<open>copy(data[4:], ...)\<close> fills what is left of it.
\<close>

definition KeyShareEntry_MarshalBinary :: "KeyShareEntry \<Rightarrow> byte list result" where
  "KeyShareEntry_MarshalBinary entry =
    (let data = replicate (unat (KeyShareEntry_Size entry)) (0 :: byte) in
     if length data < 2 then Panic
     else let data = copy_at 0 data (PutUint16 (Group entry)) in
     if length data < 4 then Panic
     else let data = copy_at 2 data (PutUint16 (of_nat (length (KeyExchange entry))));
              data = copy_at 4 data (KeyExchange entry)
     in Ok data)"

text \<open>
  On success both fields of the receiver are overwritten, so the value is the entry read.
  \<^verbatim>\<open>data[4:keyLen+4]\<close> has its upper bound computed in 16 bits: it panics when
  that sum wraps below 4.
\<close>

definition KeyShareEntry_UnmarshalBinary :: "byte list \<Rightarrow> KeyShareEntry result" where
  "KeyShareEntry_UnmarshalBinary data =
    (if length data < 4
     then Err (Wrap ErrUnexpectedEOF ''buffer is too small for key share entry'')
     else let group = Uint16 (take 2 data); keyLen = Uint16 (drop 2 data) in
       if length data < unat keyLen + 4
       then Err (Wrap ErrUnexpectedEOF ''buffer is too small for key exchange'')
       else if unat (keyLen + 4) < 4 then Panic
       else Ok \<lparr>Group = group,
                KeyExchange = go_copy (replicate (unat keyLen) 0)
                                (take (unat (keyLen + 4) - 4) (drop 4 data))\<rparr>)"

type_synonym KeyShareEntryList = "KeyShareEntry list"

definition KeyShareEntryList_Size :: "KeyShareEntryList \<Rightarrow> uint16" where
  "KeyShareEntryList_Size list = foldl (\<lambda>size e. size + KeyShareEntry_Size e) 0 list"

definition KeyShareEntryList_Contains :: "KeyShareEntryList \<Rightarrow> KeyShareEntry \<Rightarrow> bool" where
  "KeyShareEntryList_Contains list entry = list_ex (\<lambda>e. Group e = Group entry) list"

text \<open>
  The loop of \<^verbatim>\<open>KeyShareEntryList.MarshalBinary\<close>: \<open>pos\<close> never passes the end of
  \<open>data\<close>, since \<^verbatim>\<open>copy\<close> returns what it wrote.
\<close>

fun KeyShareEntryList_marshal_loop ::
  "KeyShareEntryList \<Rightarrow> byte list \<Rightarrow> nat \<Rightarrow> byte list result" where
  "KeyShareEntryList_marshal_loop [] data pos = Ok data"
| "KeyShareEntryList_marshal_loop (e # es) data pos =
    (case KeyShareEntry_MarshalBinary e of
       Err err \<Rightarrow> Err (Wrap err ''marshal key share entry'')
     | Panic \<Rightarrow> Panic
     | Ok entry \<Rightarrow>
         KeyShareEntryList_marshal_loop es (copy_at pos data entry)
           (pos + min (length data - pos) (length entry)))"

definition KeyShareEntryList_MarshalBinary :: "KeyShareEntryList \<Rightarrow> byte list result" where
  "KeyShareEntryList_MarshalBinary list =
    KeyShareEntryList_marshal_loop list
      (replicate (unat (KeyShareEntryList_Size list)) 0) 0"

text \<open>
  The loop of \<^verbatim>\<open>KeyShareEntryList.UnmarshalBinary\<close>, with the receiver \<open>list\<close> and
  the cursor \<open>pos\<close>; the cursor moves by \<^verbatim>\<open>int(entry.Size()) + 1\<close>.
\<close>

function KeyShareEntryList_unmarshal_loop ::
  "KeyShareEntryList \<Rightarrow> byte list \<Rightarrow> nat \<Rightarrow> KeyShareEntryList result" where
  "KeyShareEntryList_unmarshal_loop list data pos =
    (if pos < length data then
       (case KeyShareEntry_UnmarshalBinary (drop pos data) of
          Err err \<Rightarrow> Err (Wrap err ''unmarshal key share entry'')
        | Panic \<Rightarrow> Panic
        | Ok entry \<Rightarrow>
            if KeyShareEntryList_Contains list entry
            then Err (New ''duplicate key share group'')
            else KeyShareEntryList_unmarshal_loop (list @ [entry]) data
                   (pos + unat (KeyShareEntry_Size entry) + 1))
     else Ok list)"
  by pat_completeness auto
termination
  by (relation "measure (\<lambda>(list, data, pos). length data - pos)") auto

declare KeyShareEntryList_unmarshal_loop.simps [simp del]

definition KeyShareEntryList_UnmarshalBinary ::
  "KeyShareEntryList \<Rightarrow> byte list \<Rightarrow> KeyShareEntryList result" where
  "KeyShareEntryList_UnmarshalBinary list data = KeyShareEntryList_unmarshal_loop list data 0"

section \<open>extensions.go: the address set extension\<close>

type_synonym IP = "byte list"

text \<open>
  \<^verbatim>\<open>net.IP.To4\<close>: a four byte address is returned as it is, a sixteen byte address
  with the IPv4-in-IPv6 prefix gives its last four bytes, anything else gives nil.
\<close>

definition IP_To4 :: "IP \<Rightarrow> IP option" where
  "IP_To4 ip =
    (if length ip = 4 then Some ip
     else if length ip = 16 \<and> list_all (\<lambda>b. b = 0) (take 10 ip)
             \<and> ip ! 10 = 255 \<and> ip ! 11 = 255
     then Some (drop 12 ip)
     else None)"

definition AddressSet_Size :: "IP list \<Rightarrow> uint16" where
  "AddressSet_Size addresses =
    foldl (\<lambda>size ip. size + 1 + (if IP_To4 ip \<noteq> None then 4 else 16)) 0 addresses"

text \<open>
  \<^verbatim>\<open>bytes.NewBuffer(make([]byte, set.Size()))\<close>: the new buffer's content is the
  slice it is given, \<open>Size()\<close> zero bytes, and every write appends to it.
\<close>

definition AddressSet_MarshalBinary :: "IP list \<Rightarrow> byte list result" where
  "AddressSet_MarshalBinary addresses =
    Ok (foldl (\<lambda>data ip. case IP_To4 ip of
                  Some ipv4 \<Rightarrow> data @ [4] @ ipv4
                | None \<Rightarrow> data @ [6] @ ip)
          (replicate (unat (AddressSet_Size addresses)) 0) addresses)"

text \<open>
  The loop of \<^verbatim>\<open>AddressSet.UnmarshalBinary\<close>, with the receiver's addresses and the
  cursor; \<^verbatim>\<open>copy(address, data[pos+1:])\<close> fills a fresh zeroed address with the bytes
  that are there.
\<close>

function AddressSet_unmarshal_loop :: "IP list \<Rightarrow> byte list \<Rightarrow> nat \<Rightarrow> IP list result" where
  "AddressSet_unmarshal_loop addresses data pos =
    (if pos < length data then
       (if data ! pos = 4 then
          AddressSet_unmarshal_loop
            (addresses @ [go_copy (replicate 4 0) (drop (pos + 1) data)]) data (pos + 4 + 1)
        else if data ! pos = 6 then
          AddressSet_unmarshal_loop
            (addresses @ [go_copy (replicate 16 0) (drop (pos + 1) data)]) data (pos + 16 + 1)
        else Err (New ''unsupported address type''))
     else Ok addresses)"
  by pat_completeness auto
termination
  by (relation "measure (\<lambda>(addresses, data, pos). length data - pos)") auto

declare AddressSet_unmarshal_loop.simps [simp del]

definition AddressSet_UnmarshalBinary :: "IP list \<Rightarrow> byte list \<Rightarrow> IP list result" where
  "AddressSet_UnmarshalBinary addresses data = AddressSet_unmarshal_loop addresses data 0"

section \<open>extension.go: extensions, their registry and the extension list\<close>

text \<open>
  \<^verbatim>\<open>Extension\<close> is an interface; the address set is the one type of the package that
  implements it, and the one \<^verbatim>\<open>init\<close> registers.
\<close>

datatype Extension = AddressSet (Addresses: "IP list")

definition ExtensionTypeAddressSet :: uint16 where
  "ExtensionTypeAddressSet = 0x1001"

definition mandatoryExtensionMask :: uint16 where
  "mandatoryExtensionMask = 4096"

definition ExtensionType_Mandatory :: "uint16 \<Rightarrow> bool" where
  "ExtensionType_Mandatory extType \<longleftrightarrow>
     extType AND mandatoryExtensionMask = mandatoryExtensionMask"

text \<open>The map \<^verbatim>\<open>ExtensionType_generator\<close> after \<^verbatim>\<open>init\<close>; nil is \<open>None\<close>.\<close>

definition ExtensionType_Generator :: "uint16 \<Rightarrow> Extension option" where
  "ExtensionType_Generator extType =
    (if extType = ExtensionTypeAddressSet then Some (AddressSet []) else None)"

fun Extension_Type :: "Extension \<Rightarrow> uint16" where
  "Extension_Type (AddressSet addresses) = ExtensionTypeAddressSet"

fun Extension_Size :: "Extension \<Rightarrow> uint16" where
  "Extension_Size (AddressSet addresses) = AddressSet_Size addresses"

fun Extension_MarshalBinary :: "Extension \<Rightarrow> byte list result" where
  "Extension_MarshalBinary (AddressSet addresses) = AddressSet_MarshalBinary addresses"

fun Extension_UnmarshalBinary :: "Extension \<Rightarrow> byte list \<Rightarrow> Extension result" where
  "Extension_UnmarshalBinary (AddressSet addresses) data =
    (case AddressSet_UnmarshalBinary addresses data of
       Ok addresses' \<Rightarrow> Ok (AddressSet addresses')
     | Err err \<Rightarrow> Err err
     | Panic \<Rightarrow> Panic)"

type_synonym ExtensionList = "Extension list"

definition ExtensionList_Size :: "ExtensionList \<Rightarrow> uint16" where
  "ExtensionList_Size list = foldl (\<lambda>size ext. size + 2 + Extension_Size ext) 0 list"

text \<open>
  The loop of \<^verbatim>\<open>ExtensionList.MarshalBinary\<close> over the buffer, which starts as
  \<^verbatim>\<open>bytes.NewBuffer(make([]byte, list.Size()))\<close>.
\<close>

fun ExtensionList_marshal_loop :: "ExtensionList \<Rightarrow> byte list \<Rightarrow> byte list result" where
  "ExtensionList_marshal_loop [] buffer = Ok buffer"
| "ExtensionList_marshal_loop (ext # exts) buffer =
    (case Extension_MarshalBinary ext of
       Err err \<Rightarrow> Err (Wrap err ''marshal extension'')
     | Panic \<Rightarrow> Panic
     | Ok extData \<Rightarrow>
         ExtensionList_marshal_loop exts (buffer @ PutUint16 (Extension_Type ext) @ extData))"

definition ExtensionList_MarshalBinary :: "ExtensionList \<Rightarrow> byte list result" where
  "ExtensionList_MarshalBinary list =
    ExtensionList_marshal_loop list (replicate (unat (ExtensionList_Size list)) 0)"

text \<open>Decimal digits, for the \<^verbatim>\<open>%d\<close> of \<^verbatim>\<open>errors.Wrapf\<close>.\<close>

function decimal :: "nat \<Rightarrow> string" where
  "decimal n =
    (if n < 10 then [char_of (48 + n)] else decimal (n div 10) @ [char_of (48 + n mod 10)])"
  by pat_completeness auto
termination
  by (relation "measure (\<lambda>n. n)") auto

declare decimal.simps [simp del]

text \<open>
  The loop of \<^verbatim>\<open>ExtensionList.UnmarshalBinary\<close>. \<^verbatim>\<open>Uint16(data[pos:])\<close> panics on
  a single last byte; the extension is given everything after its type,
  \<^verbatim>\<open>data[pos+2:]\<close>, and the cursor moves by the size it reports.
\<close>

function ExtensionList_unmarshal_loop ::
  "ExtensionList \<Rightarrow> byte list \<Rightarrow> nat \<Rightarrow> ExtensionList result" where
  "ExtensionList_unmarshal_loop list data pos =
    (if pos < length data then
       (if length (drop pos data) < 2 then Panic
        else let extType = Uint16 (drop pos data) in
          (case ExtensionType_Generator extType of
             None \<Rightarrow>
               Err (Wrap ErrUnsupportedExtensionType
                      (''extension_type('' @ decimal (unat extType) @ '')''))
           | Some gen \<Rightarrow>
               (case Extension_UnmarshalBinary gen (drop (pos + 2) data) of
                  Err err \<Rightarrow> Err (Wrap err ''unmarshal extension'')
                | Panic \<Rightarrow> Panic
                | Ok ext \<Rightarrow>
                    ExtensionList_unmarshal_loop (list @ [ext]) data
                      (pos + unat (Extension_Size ext) + 2))))
     else Ok list)"
  by pat_completeness auto
termination
  by (relation "measure (\<lambda>(list, data, pos). length data - pos)") auto

declare ExtensionList_unmarshal_loop.simps [simp del]

definition ExtensionList_UnmarshalBinary ::
  "ExtensionList \<Rightarrow> byte list \<Rightarrow> ExtensionList result" where
  "ExtensionList_UnmarshalBinary list data = ExtensionList_unmarshal_loop list data 0"

section \<open>crypto/sha256: the digest of the checksum\<close>

text \<open>
  \<^verbatim>\<open>sha256.Sum256\<close> is the SHA-256 of FIPS 180-4: the message is padded to whole
  64-byte blocks, every block is expanded to 64 words and run through 64 rounds, and the
  eight state words are written out most significant byte first.
\<close>

definition sha256_K :: "uint32 list" where
  "sha256_K =
    [1116352408, 1899447441, 3049323471, 3921009573, 961987163, 1508970993,
     2453635748, 2870763221, 3624381080, 310598401, 607225278, 1426881987,
     1925078388, 2162078206, 2614888103, 3248222580, 3835390401, 4022224774,
     264347078, 604807628, 770255983, 1249150122, 1555081692, 1996064986,
     2554220882, 2821834349, 2952996808, 3210313671, 3336571891, 3584528711,
     113926993, 338241895, 666307205, 773529912, 1294757372, 1396182291,
     1695183700, 1986661051, 2177026350, 2456956037, 2730485921, 2820302411,
     3259730800, 3345764771, 3516065817, 3600352804, 4094571909, 275423344,
     430227734, 506948616, 659060556, 883997877, 958139571, 1322822218,
     1537002063, 1747873779, 1955562222, 2024104815, 2227730452, 2361852424,
     2428436474, 2756734187, 3204031479, 3329325298]"

type_synonym sha256_state =
  "uint32 \<times> uint32 \<times> uint32 \<times> uint32 \<times> uint32 \<times> uint32 \<times> uint32 \<times> uint32"

definition sha256_init :: sha256_state where
  "sha256_init =
    (1779033703, 3144134277, 1013904242, 2773480762, 1359893119, 2600822924,
     528734635, 1541459225)"

definition rotr :: "nat \<Rightarrow> uint32 \<Rightarrow> uint32" where
  "rotr n x = drop_bit n x OR push_bit (32 - n) x"

definition sha256_round :: "sha256_state \<Rightarrow> uint32 \<times> uint32 \<Rightarrow> sha256_state" where
  "sha256_round s kw = (case s of (a, b, c, d, e, f, g, h) \<Rightarrow>
     let t1 = h + (rotr 6 e XOR rotr 11 e XOR rotr 25 e) + ((e AND f) XOR (NOT e AND g))
                + fst kw + snd kw;
         t2 = (rotr 2 a XOR rotr 13 a XOR rotr 22 a) + ((a AND b) XOR (a AND c) XOR (b AND c))
     in (t1 + t2, a, b, c, d + t1, e, f, g))"

text \<open>The message schedule, over a window of the last sixteen words.\<close>

fun sha256_schedule :: "nat \<Rightarrow> uint32 list \<Rightarrow> uint32 list" where
  "sha256_schedule 0 w = []"
| "sha256_schedule (Suc n) w =
     hd w # sha256_schedule n (tl w @
       [(rotr 17 (w ! 14) XOR rotr 19 (w ! 14) XOR drop_bit 10 (w ! 14)) + w ! 9
        + (rotr 7 (w ! 1) XOR rotr 18 (w ! 1) XOR drop_bit 3 (w ! 1)) + w ! 0])"

definition Uint32 :: "byte list \<Rightarrow> uint32" where
  "Uint32 b = foldl (\<lambda>acc x. push_bit 8 acc OR ucast x) 0 (take 4 b)"

definition PutUint32 :: "uint32 \<Rightarrow> byte list" where
  "PutUint32 v = [ucast (drop_bit 24 v), ucast (drop_bit 16 v), ucast (drop_bit 8 v), ucast v]"

fun sha256_words :: "nat \<Rightarrow> byte list \<Rightarrow> uint32 list" where
  "sha256_words 0 bs = []"
| "sha256_words (Suc n) bs = Uint32 bs # sha256_words n (drop 4 bs)"

definition sha256_block :: "sha256_state \<Rightarrow> byte list \<Rightarrow> sha256_state" where
  "sha256_block s blk = (case s of (a, b, c, d, e, f, g, h) \<Rightarrow>
     (case foldl sha256_round s (zip sha256_K (sha256_schedule 64 (sha256_words 16 blk))) of
        (a', b', c', d', e', f', g', h') \<Rightarrow>
          (a + a', b + b', c + c', d + d', e + e', f + f', g + g', h + h')))"

fun sha256_blocks :: "nat \<Rightarrow> sha256_state \<Rightarrow> byte list \<Rightarrow> sha256_state" where
  "sha256_blocks 0 s bs = s"
| "sha256_blocks (Suc n) s bs = sha256_blocks n (sha256_block s (take 64 bs)) (drop 64 bs)"

definition sha256_pad :: "byte list \<Rightarrow> byte list" where
  "sha256_pad m = m @ [128] @ replicate ((64 - (length m + 9) mod 64) mod 64) 0
                    @ PutUint64 (8 * of_nat (length m))"

definition sha256_Sum256 :: "byte list \<Rightarrow> byte list" where
  "sha256_Sum256 m = (let p = sha256_pad m in
     case sha256_blocks (length p div 64) sha256_init p of
       (a, b, c, d, e, f, g, h) \<Rightarrow> concat (map PutUint32 [a, b, c, d, e, f, g, h]))"

section \<open>versions.go, keys.go: the record\<close>

definition VersionDraft01 :: uint16 where
  "VersionDraft01 = 0xff01"

definition VersionDraft03 :: uint16 where
  "VersionDraft03 = 0xff02"

text \<open>
  A \<^verbatim>\<open>time.Time\<close>, as far as the record uses it: \<^verbatim>\<open>Unix()\<close> is \<open>unix\<close>, the seconds
  since 1970 as the 64 bits of an \<^verbatim>\<open>int64\<close> (the conversions to and from
  \<^verbatim>\<open>uint64\<close> keep the bits), and \<open>nsec\<close> is the nanosecond within that second.
  \<^verbatim>\<open>time.Unix(sec, 0)\<close> is the time with these seconds and no nanoseconds.
\<close>

record Time =
  unix :: uint64
  nsec :: nat

definition time_Unix :: "uint64 \<Rightarrow> nat \<Rightarrow> Time" where
  "time_Unix s n = \<lparr>unix = s, nsec = n\<rparr>"

text \<open>A \<^verbatim>\<open>string\<close> is its bytes; the checksum is the array \<^verbatim>\<open>[4]byte\<close>.\<close>

record Keys =
  Version :: uint16
  Checksum :: "byte list"
  PublicName :: "byte list"
  Keys :: KeyShareEntryList
  CipherSuites :: "uint16 list"
  PaddedLength :: uint16
  NotBefore :: Time
  NotAfter :: Time
  Extensions :: ExtensionList

text \<open>
  \<^verbatim>\<open>new(Keys)\<close>: every field has its zero value (the zero \<^verbatim>\<open>time.Time\<close> is the
  first second of year 1).
\<close>

definition Keys_new :: Keys where
  "Keys_new = \<lparr>Version = 0, Checksum = [0, 0, 0, 0], PublicName = [], Keys = [],
     CipherSuites = [], PaddedLength = 0,
     NotBefore = \<lparr>unix = - 62135596800, nsec = 0\<rparr>,
     NotAfter = \<lparr>unix = - 62135596800, nsec = 0\<rparr>, Extensions = []\<rparr>"

subsection \<open>Marshalling: every step appends to the buffer \<open>data\<close>\<close>

definition marshalPublicName :: "Keys \<Rightarrow> byte list \<Rightarrow> byte list result" where
  "marshalPublicName keys data =
    (if Version keys < VersionDraft03 then Ok data
     else if length (PublicName keys) = 0 then Err (New ''public name is empty'')
     else if length (PublicName keys) > 255 then Err (New ''public name is too large'')
     else Ok (data @ [of_nat (length (PublicName keys))] @ PublicName keys))"

definition marshalKeyShareList :: "Keys \<Rightarrow> byte list \<Rightarrow> byte list result" where
  "marshalKeyShareList keys data =
    (if length (Keys keys) = 0 then Err (New ''key share list is empty'')
     else let data = data @ PutUint16 (KeyShareEntryList_Size (Keys keys)) in
       (case KeyShareEntryList_MarshalBinary (Keys keys) of
          Err err \<Rightarrow> Err err
        | Panic \<Rightarrow> Panic
        | Ok listData \<Rightarrow> Ok (data @ listData)))"

definition marshalCipherSuites :: "Keys \<Rightarrow> byte list \<Rightarrow> byte list result" where
  "marshalCipherSuites keys data =
    Ok (foldl (\<lambda>data suite. data @ PutUint16 suite)
          (data @ PutUint16 (of_nat (length (CipherSuites keys) * 2))) (CipherSuites keys))"

definition marshalValidityPeriod :: "Keys \<Rightarrow> byte list \<Rightarrow> byte list result" where
  "marshalValidityPeriod keys data =
    Ok (data @ PutUint64 (unix (NotBefore keys)) @ PutUint64 (unix (NotAfter keys)))"

definition marshalExtensions :: "Keys \<Rightarrow> byte list \<Rightarrow> byte list result" where
  "marshalExtensions keys data =
    (let data = data @ PutUint16 (ExtensionList_Size (Extensions keys)) in
     if length (Extensions keys) = 0 then Ok data
     else (case ExtensionList_MarshalBinary (Extensions keys) of
             Err err \<Rightarrow> Err err
           | Panic \<Rightarrow> Panic
           | Ok extsData \<Rightarrow> Ok (data @ extsData)))"

text \<open>One step of \<^verbatim>\<open>MarshalBinary\<close>: run \<open>f\<close> on the buffer, wrap its error.\<close>

definition marshal_step ::
  "string \<Rightarrow> (byte list \<Rightarrow> byte list result) \<Rightarrow> byte list result \<Rightarrow> byte list result" where
  "marshal_step msg f r = (case r of Ok data \<Rightarrow> wrap msg (f data) | _ \<Rightarrow> r)"

text \<open>The buffer before the checksum is spliced in: bytes 2 to 5 are zero.\<close>

definition Keys_marshal_data :: "Keys \<Rightarrow> byte list result" where
  "Keys_marshal_data keys =
    marshal_step ''marshal extensions list'' (marshalExtensions keys)
     (marshal_step ''marshal validity period'' (marshalValidityPeriod keys)
      (marshal_step ''write padded length'' (\<lambda>data. Ok (data @ PutUint16 (PaddedLength keys)))
       (marshal_step ''marshal cipher suite list'' (marshalCipherSuites keys)
        (marshal_step ''marshal key share list'' (marshalKeyShareList keys)
         (marshal_step ''marshal public name'' (marshalPublicName keys)
          (Ok (PutUint16 (Version keys) @ [0, 0, 0, 0])))))))"

definition Keys_MarshalBinary :: "Keys \<Rightarrow> byte list result" where
  "Keys_MarshalBinary keys =
    (case Keys_marshal_data keys of
       Ok final \<Rightarrow>
         (let sum = sha256_Sum256 final in
          Ok (take 2 final @ go_copy (take 4 (drop 2 final)) (take 4 sum) @ drop 6 final))
     | r \<Rightarrow> r)"

subsection \<open>Unmarshalling: the reader is the bytes not yet read\<close>

type_synonym Reader = "byte list"

text \<open>
  \<^verbatim>\<open>bytes.Reader\<close>: \<^verbatim>\<open>ReadByte\<close> and \<^verbatim>\<open>Read\<close> return \<^verbatim>\<open>io.EOF\<close> when nothing is
  left; otherwise \<^verbatim>\<open>Read(p)\<close> copies what is there into \<open>p\<close> and returns no error,
  also when that is less than \<open>p\<close> holds.
\<close>

definition Reader_ReadByte :: "Reader \<Rightarrow> byte result \<times> Reader" where
  "Reader_ReadByte reader =
    (case reader of [] \<Rightarrow> (Err EOF, reader) | x # rest \<Rightarrow> (Ok x, rest))"

definition Reader_Read :: "Reader \<Rightarrow> byte list \<Rightarrow> byte list result \<times> Reader" where
  "Reader_Read reader p =
    (if reader = [] then (Err EOF, reader)
     else (Ok (go_copy p reader), drop (length p) reader))"

text \<open>
  \<^verbatim>\<open>binary.Read\<close> of a fixed-size integer reads with \<^verbatim>\<open>io.ReadFull\<close>: \<^verbatim>\<open>io.EOF\<close>
  when nothing is left, \<^verbatim>\<open>io.ErrUnexpectedEOF\<close> when the input ends inside the integer.
\<close>

definition binary_Read_uint16 :: "Reader \<Rightarrow> uint16 result \<times> Reader" where
  "binary_Read_uint16 reader =
    (if reader = [] then (Err EOF, reader)
     else if length reader < 2 then (Err ErrUnexpectedEOF, [])
     else (Ok (Uint16 reader), drop 2 reader))"

definition binary_Read_uint64 :: "Reader \<Rightarrow> uint64 result \<times> Reader" where
  "binary_Read_uint64 reader =
    (if reader = [] then (Err EOF, reader)
     else if length reader < 8 then (Err ErrUnexpectedEOF, [])
     else (Ok (Uint64 reader), drop 8 reader))"

text \<open>
  Each step takes the receiver and the reader; it gives the receiver when it succeeds,
  and the reader as the step leaves it.
\<close>

definition unmarshalPublicName :: "Keys \<Rightarrow> Reader \<Rightarrow> Keys result \<times> Reader" where
  "unmarshalPublicName keys reader =
    (if Version keys < VersionDraft03 then (Ok keys, reader)
     else (case Reader_ReadByte reader of
        (Err err, reader) \<Rightarrow> (Err (Wrap err ''read length''), reader)
      | (Panic, reader) \<Rightarrow> (Panic, reader)
      | (Ok nameLength, reader) \<Rightarrow>
          if nameLength = 0 then (Err (New ''public name is empty''), reader)
          else (case Reader_Read reader (replicate (unat nameLength) 0) of
             (Err err, reader) \<Rightarrow> (Err err, reader)
           | (Panic, reader) \<Rightarrow> (Panic, reader)
           | (Ok name, reader) \<Rightarrow> (Ok (keys\<lparr>PublicName := name\<rparr>), reader))))"

definition unmarshalKeyShareList :: "Keys \<Rightarrow> Reader \<Rightarrow> Keys result \<times> Reader" where
  "unmarshalKeyShareList keys reader =
    (case binary_Read_uint16 reader of
       (Err err, reader) \<Rightarrow> (Err (Wrap err ''read key share list size''), reader)
     | (Panic, reader) \<Rightarrow> (Panic, reader)
     | (Ok listLen, reader) \<Rightarrow>
         if listLen = 0 then (Err (New ''key share list is empty''), reader)
         else (case Reader_Read reader (replicate (unat listLen) 0) of
            (Err err, reader) \<Rightarrow> (Err (Wrap err ''read key share list''), reader)
          | (Panic, reader) \<Rightarrow> (Panic, reader)
          | (Ok data, reader) \<Rightarrow>
              (case KeyShareEntryList_UnmarshalBinary [] data of
                 Err err \<Rightarrow> (Err err, reader)
               | Panic \<Rightarrow> (Panic, reader)
               | Ok list \<Rightarrow> (Ok (keys\<lparr>Keys := list\<rparr>), reader))))"

text \<open>
  The loop of \<^verbatim>\<open>unmarshalCipherSuites\<close>: \<open>n\<close> suites are still to read, \<open>i\<close> is the
  index of the next one.
\<close>

fun read_cipher_suites ::
  "nat \<Rightarrow> nat \<Rightarrow> uint16 list \<Rightarrow> Reader \<Rightarrow> uint16 list result \<times> Reader" where
  "read_cipher_suites 0 i suites reader = (Ok suites, reader)"
| "read_cipher_suites (Suc n) i suites reader =
    (case binary_Read_uint16 reader of
       (Err err, reader) \<Rightarrow> (Err (Wrap err (''read cipher suite '' @ decimal i)), reader)
     | (Panic, reader) \<Rightarrow> (Panic, reader)
     | (Ok suite, reader) \<Rightarrow> read_cipher_suites n (Suc i) (suites @ [suite]) reader)"

definition unmarshalCipherSuites :: "Keys \<Rightarrow> Reader \<Rightarrow> Keys result \<times> Reader" where
  "unmarshalCipherSuites keys reader =
    (case binary_Read_uint16 reader of
       (Err err, reader) \<Rightarrow> (Err (Wrap err ''read cipher suite list size''), reader)
     | (Panic, reader) \<Rightarrow> (Panic, reader)
     | (Ok suitesLen, reader) \<Rightarrow>
         if suitesLen mod 2 \<noteq> 0 then (Err (New ''invalid cipher suite list size''), reader)
         else (case read_cipher_suites (unat (suitesLen div 2)) 0 [] reader of
            (Ok suites, reader) \<Rightarrow> (Ok (keys\<lparr>CipherSuites := suites\<rparr>), reader)
          | (Err err, reader) \<Rightarrow> (Err err, reader)
          | (Panic, reader) \<Rightarrow> (Panic, reader)))"

definition unmarshalPaddedLength :: "Keys \<Rightarrow> Reader \<Rightarrow> Keys result \<times> Reader" where
  "unmarshalPaddedLength keys reader =
    (case binary_Read_uint16 reader of
       (Ok v, reader) \<Rightarrow> (Ok (keys\<lparr>PaddedLength := v\<rparr>), reader)
     | (Err err, reader) \<Rightarrow> (Err err, reader)
     | (Panic, reader) \<Rightarrow> (Panic, reader))"

definition unmarshalValidityPeriod :: "Keys \<Rightarrow> Reader \<Rightarrow> Keys result \<times> Reader" where
  "unmarshalValidityPeriod keys reader =
    (case binary_Read_uint64 reader of
       (Err err, reader) \<Rightarrow> (Err (Wrap err ''read not before''), reader)
     | (Panic, reader) \<Rightarrow> (Panic, reader)
     | (Ok notBefore, reader) \<Rightarrow>
         (case binary_Read_uint64 reader of
            (Err err, reader) \<Rightarrow> (Err (Wrap err ''read not after''), reader)
          | (Panic, reader) \<Rightarrow> (Panic, reader)
          | (Ok notAfter, reader) \<Rightarrow>
              (Ok (keys\<lparr>NotBefore := time_Unix notBefore 0,
                        NotAfter := time_Unix notAfter 0\<rparr>), reader)))"

definition unmarshalExtensions :: "Keys \<Rightarrow> Reader \<Rightarrow> Keys result \<times> Reader" where
  "unmarshalExtensions keys reader =
    (case binary_Read_uint16 reader of
       (Err err, reader) \<Rightarrow> (Err (Wrap err ''read extensions list length''), reader)
     | (Panic, reader) \<Rightarrow> (Panic, reader)
     | (Ok extsLen, reader) \<Rightarrow>
         if extsLen = 0 then (Ok keys, reader)
         else (case Reader_Read reader (replicate (unat extsLen) 0) of
            (Err err, reader) \<Rightarrow> (Err (Wrap err ''read extensions list''), reader)
          | (Panic, reader) \<Rightarrow> (Panic, reader)
          | (Ok extsData, reader) \<Rightarrow>
              (case ExtensionList_UnmarshalBinary [] extsData of
                 Err err \<Rightarrow> (Err err, reader)
               | Panic \<Rightarrow> (Panic, reader)
               | Ok list \<Rightarrow> (Ok (keys\<lparr>Extensions := list\<rparr>), reader))))"

text \<open>One step of \<^verbatim>\<open>UnmarshalBinary\<close>: run \<open>f\<close> on receiver and reader, wrap its error.\<close>

definition unmarshal_step ::
  "string \<Rightarrow> (Keys \<Rightarrow> Reader \<Rightarrow> Keys result \<times> Reader)
     \<Rightarrow> Keys result \<times> Reader \<Rightarrow> Keys result \<times> Reader" where
  "unmarshal_step msg f s =
    (case s of
       (Ok keys, reader) \<Rightarrow> (case f keys reader of (r, reader') \<Rightarrow> (wrap msg r, reader'))
     | _ \<Rightarrow> s)"

definition Keys_unmarshal_sections :: "Keys \<Rightarrow> Reader \<Rightarrow> Keys result \<times> Reader" where
  "Keys_unmarshal_sections keys reader =
    unmarshal_step ''unmarshal extensions list'' unmarshalExtensions
     (unmarshal_step ''unmarshal validity period'' unmarshalValidityPeriod
      (unmarshal_step ''read padded length'' unmarshalPaddedLength
       (unmarshal_step ''unmarshal cipher suite list'' unmarshalCipherSuites
        (unmarshal_step ''unmarshal key share list'' unmarshalKeyShareList
         (unmarshal_step ''unmarshal public name'' unmarshalPublicName
          (Ok keys, reader))))))"

text \<open>
  \<^verbatim>\<open>Keys.UnmarshalBinary(b)\<close> with receiver \<open>keys\<close>. The value is the receiver when the
  call succeeds, and the content of the caller's slice \<open>b\<close> after the call: the second
  \<^verbatim>\<open>copy\<close> writes the zeros into \<open>b\<close> itself.
\<close>

definition Keys_UnmarshalBinary :: "Keys \<Rightarrow> byte list \<Rightarrow> Keys result \<times> byte list" where
  "Keys_UnmarshalBinary keys b =
    (if length b < 2 then (Panic, b)
     else let keys = keys\<lparr>Version := Uint16 b,
                          Checksum := go_copy (Checksum keys) (drop 2 b)\<rparr>;
              b = copy_at 2 b [0, 0, 0, 0];
              sum = sha256_Sum256 b
       in if Checksum keys \<noteq> take 4 sum then (Err ErrChecksumMismatch, b)
          else if length b < 6 then (Panic, b)
          else (fst (Keys_unmarshal_sections keys (drop 6 b)), b))"

section \<open>The round trip\<close>

text \<open>
  The checksum a record should carry: the first four bytes of the digest of what
  \<^verbatim>\<open>MarshalBinary\<close> writes while the checksum bytes are still zero (four zero bytes for
  a record that cannot be marshalled).
\<close>

definition Keys_digest :: "Keys \<Rightarrow> byte list" where
  "Keys_digest keys =
    (case Keys_marshal_data keys of
       Ok final \<Rightarrow> take 4 (sha256_Sum256 final)
     | _ \<Rightarrow> [0, 0, 0, 0])"

definition Keys_with_checksum :: "Keys \<Rightarrow> Keys" where
  "Keys_with_checksum r = r\<lparr>Checksum := Keys_digest r\<rparr>"

text \<open>
  The invariants of a record as the round trip property lists them: a key share list
  that is not empty and has no group twice, a public name of 1 to 255 bytes when the
  version has one, and the checksum of the record's own encoding.
\<close>

definition Keys_valid :: "Keys \<Rightarrow> bool" where
  "Keys_valid r \<longleftrightarrow>
     Keys r \<noteq> [] \<and> distinct (map Group (Keys r)) \<and>
     (Version r < VersionDraft03 \<or> 1 \<le> length (PublicName r) \<and> length (PublicName r) \<le> 255) \<and>
     Checksum r = Keys_digest r"

text \<open>
  \<^verbatim>\<open>MarshalBinary\<close> succeeds, and \<^verbatim>\<open>UnmarshalBinary\<close> of its bytes on a new record, as
  the command of the repository calls it, succeeds with the record marshalled.
\<close>

definition Keys_roundtrip :: "Keys \<Rightarrow> bool" where
  "Keys_roundtrip r \<longleftrightarrow>
    (case Keys_MarshalBinary r of
       Ok b \<Rightarrow> fst (Keys_UnmarshalBinary Keys_new b) = Ok r
     | _ \<Rightarrow> False)"

text \<open>What \<^verbatim>\<open>marshalPublicName\<close> appends for a record whose name it accepts.\<close>

definition name_section :: "Keys \<Rightarrow> byte list" where
  "name_section r =
    (if Version r < VersionDraft03 then []
     else [of_nat (length (PublicName r))] @ PublicName r)"

section \<open>A record to run the code on\<close>

text \<open>
  A record of the first draft version with a public name, one X25519 key share (three
  bytes stand for the key), one cipher suite and no extension.
\<close>

definition example_keys :: Keys where
  "example_keys = \<lparr>Version = 0xff01, Checksum = [0, 0, 0, 0], PublicName = [101],
     Keys = [\<lparr>Group = 29, KeyExchange = [1, 2, 3]\<rparr>], CipherSuites = [0x1301],
     PaddedLength = 260, NotBefore = \<lparr>unix = 1, nsec = 0\<rparr>,
     NotAfter = \<lparr>unix = 2, nsec = 0\<rparr>, Extensions = []\<rparr>"

text \<open>
  The same record in the third draft version, with the checksum of its encoding.
\<close>

definition example_draft03 :: Keys where
  "example_draft03 = example_keys\<lparr>Version := 0xff02, Checksum := [117, 112, 227, 190]\<rparr>"

section \<open>Byte order\<close>

lemma Uint16_PutUint16: "Uint16 (PutUint16 v @ rest) = v"
  unfolding Uint16_def PutUint16_def
  by simp (rule bit_word_eqI, auto simp: bit_simps)

lemma length_PutUint16: "length (PutUint16 v) = 2"
  by (simp add: PutUint16_def)

lemma length_go_copy: "length (go_copy dst src) = length dst"
  by (auto simp: go_copy_def)

lemma go_copy_same_length: "length src = length dst \<Longrightarrow> go_copy dst src = src"
  by (simp add: go_copy_def)

section \<open>The entry codec\<close>

lemma KeyShareEntry_Size_small:
  "length (KeyExchange e) \<le> 65531 \<Longrightarrow> unat (KeyShareEntry_Size e) = length (KeyExchange e) + 4"
  by (simp add: KeyShareEntry_Size_def unat_word_ariths unat_of_nat)

lemma KeyShareEntry_MarshalBinary_small:
  assumes "length (KeyExchange e) \<le> 65531"
  shows "KeyShareEntry_MarshalBinary e =
    Ok (PutUint16 (Group e) @ PutUint16 (of_nat (length (KeyExchange e))) @ KeyExchange e)"
  using assms
  by (simp add: KeyShareEntry_MarshalBinary_def KeyShareEntry_Size_small Let_def copy_at_def
      go_copy_def length_PutUint16 PutUint16_def)

lemma KeyShareEntry_UnmarshalBinary_encoded:
  assumes "length ke \<le> 65531"
  shows "KeyShareEntry_UnmarshalBinary (PutUint16 g @ PutUint16 (of_nat (length ke)) @ ke @ rest)
     = Ok \<lparr>Group = g, KeyExchange = ke\<rparr>"
proof -
  let ?data = "PutUint16 g @ PutUint16 (of_nat (length ke)) @ ke @ rest"
  have len: "unat (of_nat (length ke) :: uint16) = length ke"
    using assms by (simp add: unat_of_nat)
  have len4: "unat ((of_nat (length ke) :: uint16) + 4) = length ke + 4"
    using assms by (simp add: unat_word_ariths unat_of_nat)
  have g: "Uint16 (take 2 ?data) = g"
    using Uint16_PutUint16 [of g "[]"] by (simp add: length_PutUint16)
  have k: "Uint16 (drop 2 ?data) = of_nat (length ke)"
    by (simp add: length_PutUint16 Uint16_PutUint16)
  have d4: "drop 4 ?data = ke @ rest"
    by (simp add: length_PutUint16)
  have l: "length ?data = length ke + 4 + length rest"
    by (simp add: length_PutUint16)
  show ?thesis
    unfolding KeyShareEntry_UnmarshalBinary_def Let_def g k d4 l len len4
    by (simp add: go_copy_def)
qed

text \<open>
  C10, as amended: for every key share entry whose key exchange has at most 65531 bytes,
  \<^verbatim>\<open>MarshalBinary\<close> succeeds and \<^verbatim>\<open>UnmarshalBinary\<close> of its bytes succeeds with an
  entry of the same group and the same key exchange bytes. (The bound of the claim,
  65535, is the largest length the two length bytes can hold; \<^verbatim>\<open>Size()\<close> adds the four
  header bytes in 16 bits, so the entry as a whole must fit 65535 bytes.)
\<close>

theorem KeyShareEntry_roundtrip:
  assumes "length (KeyExchange e) \<le> 65531"
  shows "\<exists>b. KeyShareEntry_MarshalBinary e = Ok b \<and> KeyShareEntry_UnmarshalBinary b = Ok e"
  using assms KeyShareEntry_UnmarshalBinary_encoded [of "KeyExchange e" "Group e" "[]"]
  by (simp add: KeyShareEntry_MarshalBinary_small)

theorem KeyShareEntry_roundtrip_witness:
  "KeyShareEntry_MarshalBinary \<lparr>Group = 29, KeyExchange = [1, 2, 3]\<rparr>
     = Ok [0, 29, 0, 3, 1, 2, 3] \<and>
   KeyShareEntry_UnmarshalBinary [0, 29, 0, 3, 1, 2, 3]
     = Ok \<lparr>Group = 29, KeyExchange = [1, 2, 3]\<rparr>"
  using KeyShareEntry_roundtrip [of "\<lparr>Group = 29, KeyExchange = [1, 2, 3]\<rparr>"]
  by (simp add: KeyShareEntry_MarshalBinary_small PutUint16_def)

text \<open>
  C10 as stated fails: with a key exchange of 65532 bytes \<^verbatim>\<open>Size()\<close> wraps to 0, the
  buffer is empty and \<^verbatim>\<open>data[0:2]\<close> panics.
\<close>

theorem KeyShareEntry_roundtrip_counterexample:
  "length (KeyExchange \<lparr>Group = 29, KeyExchange = replicate 65532 0\<rparr>) \<le> 65535 \<and>
   KeyShareEntry_MarshalBinary \<lparr>Group = 29, KeyExchange = replicate 65532 0\<rparr> = Panic"
  by (simp add: KeyShareEntry_MarshalBinary_def KeyShareEntry_Size_def)

section \<open>The cipher suite list\<close>

lemma odd_word_mod2: "(w :: uint16) mod 2 \<noteq> 0 \<longleftrightarrow> odd (unat w)"
proof -
  have "w mod 2 = 0 \<longleftrightarrow> unat (w mod 2) = 0"
    by (simp add: unat_eq_zero)
  also have "\<dots> \<longleftrightarrow> even (unat w)"
    by (simp add: unat_mod even_iff_mod_2_eq_zero)
  finally show ?thesis by simp
qed

text \<open>
  C8: when the two length bytes of a cipher suite list are there and their big-endian
  value is odd, \<^verbatim>\<open>unmarshalCipherSuites\<close> fails with the error
  ``invalid cipher suite list size'', and the reader stands right after the two length
  bytes: no suite identifier has been read.
\<close>

theorem unmarshalCipherSuites_odd:
  assumes "2 \<le> length reader" and "odd (unat (Uint16 reader))"
  shows "unmarshalCipherSuites keys reader =
           (Err (New ''invalid cipher suite list size''), drop 2 reader)"
proof -
  from assms(1) have "binary_Read_uint16 reader = (Ok (Uint16 reader), drop 2 reader)"
    by (auto simp: binary_Read_uint16_def)
  moreover have "Uint16 reader mod 2 \<noteq> 0"
    by (rule iffD2 [OF odd_word_mod2 assms(2)])
  ultimately show ?thesis
    by (simp add: unmarshalCipherSuites_def)
qed

text \<open>The literal case of C8: the bytes 00 05 13 01 13.\<close>

theorem unmarshalCipherSuites_odd_witness:
  "unmarshalCipherSuites Keys_new [0x00, 0x05, 0x13, 0x01, 0x13] =
     (Err (New ''invalid cipher suite list size''), [0x13, 0x01, 0x13])"
  using unmarshalCipherSuites_odd [of "[0x00, 0x05, 0x13, 0x01, 0x13]" Keys_new]
  by (simp add: Uint16_def)

section \<open>The address set and the extension list\<close>

text \<open>
  C3 at its input, the addresses 1.2.3.4 and ::1: \<^verbatim>\<open>AddressSet.MarshalBinary\<close> returns 44
  bytes, the 22 zero bytes the buffer was created with and then the 22 bytes of the claim;
  \<^verbatim>\<open>AddressSet.UnmarshalBinary\<close> of the 22 bytes of the claim gives the two addresses in
  order.
\<close>

theorem AddressSet_literal_case:
  "AddressSet_MarshalBinary [[1, 2, 3, 4], replicate 15 0 @ [1]] =
     Ok (replicate 22 0 @ [4, 1, 2, 3, 4, 6] @ replicate 15 0 @ [1]) \<and>
   AddressSet_UnmarshalBinary [] ([4, 1, 2, 3, 4, 6] @ replicate 15 0 @ [1]) =
     Ok [[1, 2, 3, 4], replicate 15 0 @ [1]]"
  by code_simp

text \<open>
  C9 at the payload 04 01 02, a tag of 4 followed by two bytes:
  \<^verbatim>\<open>AddressSet.UnmarshalBinary\<close> succeeds with the address 1.2.0.0; likewise a tag of 6
  followed by one byte gives a sixteen byte address padded with zeros.
\<close>

theorem AddressSet_UnmarshalBinary_truncated:
  "AddressSet_UnmarshalBinary [] [4, 1, 2] = Ok [[1, 2, 0, 0]] \<and>
   AddressSet_UnmarshalBinary [] [6, 32] = Ok [32 # replicate 15 0]"
  by code_simp

text \<open>
  C2 at the list of one address set holding 1.2.3.4: \<^verbatim>\<open>ExtensionList.MarshalBinary\<close>
  returns 19 bytes, the 7 zero bytes the buffer was created with, the type 10 01 and the
  10 bytes \<^verbatim>\<open>AddressSet.MarshalBinary\<close> returns; \<^verbatim>\<open>Size()\<close>, the length prefix, is 7.
\<close>

theorem ExtensionList_MarshalBinary_one_address:
  "ExtensionList_MarshalBinary [AddressSet [[1, 2, 3, 4]]] =
     Ok (replicate 7 0 @ [0x10, 0x01] @ replicate 5 0 @ [4, 1, 2, 3, 4]) \<and>
   Extension_MarshalBinary (AddressSet [[1, 2, 3, 4]]) = Ok (replicate 5 0 @ [4, 1, 2, 3, 4]) \<and>
   ExtensionList_Size [AddressSet [[1, 2, 3, 4]]] = 7"
  by code_simp

section \<open>The key share list\<close>

text \<open>
  C4 at the stream 00 17 00 00 00 17 00 00, two entries of group 0x0017 with empty keys:
  after the first entry the cursor stands at 5, one byte into the second entry, and
  \<^verbatim>\<open>KeyShareEntryList.UnmarshalBinary\<close> fails with ``buffer is too small for key share
  entry'' (\<^verbatim>\<open>io.ErrUnexpectedEOF\<close>), not with ``duplicate key share group''.
\<close>

theorem KeyShareEntryList_UnmarshalBinary_duplicate:
  "KeyShareEntryList_UnmarshalBinary [] [0, 0x17, 0, 0, 0, 0x17, 0, 0] =
     Err (Wrap (Wrap ErrUnexpectedEOF ''buffer is too small for key share entry'')
            ''unmarshal key share entry'')"
  by code_simp

section \<open>The record\<close>

text \<open>
  C5 at the empty buffer and at a buffer of one byte: \<^verbatim>\<open>Keys.UnmarshalBinary\<close> panics, in
  \<^verbatim>\<open>binary.BigEndian.Uint16(b[0:])\<close>.
\<close>

theorem Keys_UnmarshalBinary_short_buffer:
  "Keys_UnmarshalBinary Keys_new [] = (Panic, []) \<and>
   Keys_UnmarshalBinary Keys_new [0xff] = (Panic, [0xff])"
  by (simp add: Keys_UnmarshalBinary_def)

lemma copy_at_zero_checksum:
  assumes "2 \<le> length b"
  shows "copy_at 2 b [0, 0, 0, 0 :: byte]
           = take 2 b @ replicate (min 4 (length b - 2)) 0 @ drop 6 b"
proof -
  have z: "[0, 0, 0, 0 :: byte] = replicate 4 0"
    by (simp add: numeral_eq_Suc)
  have "copy_at 2 b (replicate 4 (0 :: byte))
          = take 2 b @ replicate (min 4 (length b - 2)) 0 @ drop 6 b"
    using assms by (simp add: copy_at_def go_copy_def min.commute)
  then show ?thesis by (simp only: z)
qed

lemma Keys_UnmarshalBinary_buffer:
  "snd (Keys_UnmarshalBinary keys b) = (if length b < 2 then b else copy_at 2 b [0, 0, 0, 0])"
  by (simp add: Keys_UnmarshalBinary_def Let_def)

text \<open>
  C6, as amended: \<^verbatim>\<open>Keys.UnmarshalBinary\<close> writes the zeros of the checksum into the
  caller's buffer itself, there is no scratch copy. After the call, whatever it returns,
  the bytes 2 to 5 of the buffer (as many of them as it has) are zero and every other
  byte is as it was; a buffer of fewer than two bytes is left as it was.
\<close>

theorem Keys_UnmarshalBinary_zeroes_checksum:
  "snd (Keys_UnmarshalBinary keys b) =
     (if length b < 2 then b
      else take 2 b @ replicate (min 4 (length b - 2)) 0 @ drop 6 b)"
  by (simp add: Keys_UnmarshalBinary_buffer copy_at_zero_checksum)

theorem Keys_UnmarshalBinary_zeroes_checksum_witness:
  "snd (Keys_UnmarshalBinary Keys_new [0xff, 0x01, 1, 2, 3, 4, 9, 9]) =
     [0xff, 0x01, 0, 0, 0, 0, 9, 9]"
  using Keys_UnmarshalBinary_zeroes_checksum [of Keys_new "[0xff, 0x01, 1, 2, 3, 4, 9, 9]"]
  by simp

text \<open>
  C6 as stated fails: for this buffer of eight bytes the caller's buffer is not what it
  was after the call, since its bytes 2 to 5 have been set to zero.
\<close>

theorem Keys_UnmarshalBinary_buffer_counterexample:
  "snd (Keys_UnmarshalBinary Keys_new [0xff, 0x01, 1, 2, 3, 4, 9, 9])
     \<noteq> [0xff, 0x01, 1, 2, 3, 4, 9, 9]"
  by (simp add: Keys_UnmarshalBinary_buffer copy_at_def go_copy_def)

section \<open>Marshalling the record\<close>

lemma length_sha256_Sum256: "length (sha256_Sum256 m) = 32"
  by (simp add: sha256_Sum256_def Let_def PutUint32_def split: prod.splits)

lemma wrap_Ok [simp]: "wrap msg (Ok x) = Ok x"
  by (simp add: wrap_def)

lemma wrap_Err [simp]: "wrap msg (Err e) = Err (Wrap e msg)"
  by (simp add: wrap_def)

lemma wrap_Panic [simp]: "wrap msg Panic = Panic"
  by (simp add: wrap_def)

lemma marshal_step_Ok [simp]: "marshal_step msg f (Ok data) = wrap msg (f data)"
  by (simp add: marshal_step_def)

lemma marshal_step_Err [simp]: "marshal_step msg f (Err e) = Err e"
  by (simp add: marshal_step_def)

lemma marshal_step_Panic [simp]: "marshal_step msg f Panic = Panic"
  by (simp add: marshal_step_def)

lemma foldl_append_concat: "foldl (\<lambda>data x. data @ f x) data xs = data @ concat (map f xs)"
  by (induction xs arbitrary: data) simp_all

lemma marshalCipherSuites_eq:
  "marshalCipherSuites keys data =
     Ok (data @ PutUint16 (of_nat (length (CipherSuites keys) * 2))
           @ concat (map PutUint16 (CipherSuites keys)))"
  by (simp add: marshalCipherSuites_def foldl_append_concat)

lemma KeyShareEntry_MarshalBinary_Ok:
  "4 \<le> unat (KeyShareEntry_Size e) \<Longrightarrow> \<exists>d. KeyShareEntry_MarshalBinary e = Ok d"
  by (simp add: KeyShareEntry_MarshalBinary_def Let_def copy_at_def length_go_copy)

lemma KeyShareEntryList_marshal_loop_Ok:
  "\<forall>e\<in>set es. 4 \<le> unat (KeyShareEntry_Size e) \<Longrightarrow>
     \<exists>d. KeyShareEntryList_marshal_loop es data pos = Ok d"
proof (induction es arbitrary: data pos)
  case Nil
  then show ?case by simp
next
  case (Cons e es)
  then obtain d where "KeyShareEntry_MarshalBinary e = Ok d"
    using KeyShareEntry_MarshalBinary_Ok [of e] by auto
  with Cons show ?case by simp
qed

lemma AddressSet_MarshalBinary_Ok: "\<exists>d. AddressSet_MarshalBinary a = Ok d"
  by (simp add: AddressSet_MarshalBinary_def)

lemma Extension_MarshalBinary_Ok: "\<exists>d. Extension_MarshalBinary ext = Ok d"
  by (cases ext) (simp add: AddressSet_MarshalBinary_def)

lemma ExtensionList_marshal_loop_Ok: "\<exists>d. ExtensionList_marshal_loop exts buffer = Ok d"
proof (induction exts arbitrary: buffer)
  case Nil
  then show ?case by simp
next
  case (Cons ext exts)
  obtain d where "Extension_MarshalBinary ext = Ok d"
    using Extension_MarshalBinary_Ok by blast
  with Cons show ?case by simp
qed

lemma marshalKeyShareList_append:
  "marshalKeyShareList keys [] = Ok ks \<Longrightarrow> marshalKeyShareList keys data = Ok (data @ ks)"
  by (auto simp: marshalKeyShareList_def Let_def split: result.splits if_splits)

lemma marshalExtensions_append:
  "marshalExtensions keys [] = Ok ex \<Longrightarrow> marshalExtensions keys data = Ok (data @ ex)"
  by (auto simp: marshalExtensions_def Let_def split: result.splits if_splits)

lemma marshalValidityPeriod_append:
  "marshalValidityPeriod keys [] = Ok vp \<Longrightarrow> marshalValidityPeriod keys data = Ok (data @ vp)"
  by (auto simp: marshalValidityPeriod_def)

lemma marshalCipherSuites_append:
  "marshalCipherSuites keys [] = Ok cs \<Longrightarrow> marshalCipherSuites keys data = Ok (data @ cs)"
  by (auto simp: marshalCipherSuites_eq)

lemma marshalKeyShareList_Ok:
  assumes "Keys keys \<noteq> []" and "\<forall>e\<in>set (Keys keys). 4 \<le> unat (KeyShareEntry_Size e)"
  shows "\<exists>ks. marshalKeyShareList keys [] = Ok ks"
proof -
  obtain d where "KeyShareEntryList_MarshalBinary (Keys keys) = Ok d"
    unfolding KeyShareEntryList_MarshalBinary_def
    using KeyShareEntryList_marshal_loop_Ok [OF assms(2)] by blast
  with assms(1) show ?thesis
    by (simp add: marshalKeyShareList_def)
qed

lemma marshalExtensions_Ok: "\<exists>ex. marshalExtensions keys [] = Ok ex"
proof -
  obtain d where "ExtensionList_MarshalBinary (Extensions keys) = Ok d"
    unfolding ExtensionList_MarshalBinary_def
    using ExtensionList_marshal_loop_Ok by blast
  then show ?thesis
    by (simp add: marshalExtensions_def Let_def)
qed

text \<open>The buffer of a record without a public name section.\<close>

lemma Keys_marshal_data_old_version:
  assumes "Version keys < VersionDraft03"
    and "marshalKeyShareList keys [] = Ok ks"
    and "marshalExtensions keys [] = Ok ex"
  shows "Keys_marshal_data keys =
     Ok (PutUint16 (Version keys) @ [0, 0, 0, 0] @ ks
           @ concat (map PutUint16 [of_nat (length (CipherSuites keys) * 2)])
           @ concat (map PutUint16 (CipherSuites keys))
           @ PutUint16 (PaddedLength keys)
           @ PutUint64 (unix (NotBefore keys)) @ PutUint64 (unix (NotAfter keys)) @ ex)"
  using assms(1) marshalKeyShareList_append [OF assms(2)] marshalExtensions_append [OF assms(3)]
  by (simp add: Keys_marshal_data_def marshalPublicName_def marshalCipherSuites_eq
      marshalValidityPeriod_def)

lemma Keys_MarshalBinary_splice:
  assumes "Keys_marshal_data keys = Ok (PutUint16 v @ [0, 0, 0, 0] @ body)"
  shows "Keys_MarshalBinary keys =
           Ok (PutUint16 v @ take 4 (sha256_Sum256 (PutUint16 v @ [0, 0, 0, 0] @ body)) @ body)"
proof -
  let ?final = "PutUint16 v @ [0, 0, 0, 0] @ body"
  have t2: "take 2 ?final = PutUint16 v"
    by (simp add: length_PutUint16)
  have d2: "take 4 (drop 2 ?final) = [0, 0, 0, 0]"
    by (simp add: length_PutUint16)
  have d6: "drop 6 ?final = body"
    by (simp add: length_PutUint16)
  have gc: "go_copy [0, 0, 0, 0] (take 4 (sha256_Sum256 ?final)) = take 4 (sha256_Sum256 ?final)"
    by (rule go_copy_same_length) (simp add: length_sha256_Sum256)
  show ?thesis
    unfolding Keys_MarshalBinary_def assms Let_def result.case t2 d2 d6 gc ..
qed

text \<open>
  C7. For a version before \<^verbatim>\<open>VersionDraft03\<close>, \<^verbatim>\<open>marshalPublicName\<close> succeeds and
  leaves the buffer as it is, whatever the public name; and \<^verbatim>\<open>MarshalBinary\<close> of such
  a record with a public name (and with key shares that can be marshalled: the list is
  not empty, and no entry's \<^verbatim>\<open>Size()\<close> wraps below its four header bytes) succeeds with
  a buffer in which the version and the four checksum bytes are followed at once by the
  key share section, the cipher suite section, the padded length, the validity period
  and the extension section. For a version from \<^verbatim>\<open>VersionDraft03\<close> on and an empty
  public name, \<^verbatim>\<open>MarshalBinary\<close> fails with ``public name is empty''.
\<close>

theorem Keys_MarshalBinary_version_gating:
  "(Version keys < VersionDraft03 \<longrightarrow> marshalPublicName keys data = Ok data) \<and>
   (Version keys < VersionDraft03 \<and> PublicName keys \<noteq> [] \<and> Keys keys \<noteq> [] \<and>
      (\<forall>e\<in>set (Keys keys). 4 \<le> unat (KeyShareEntry_Size e)) \<longrightarrow>
      (\<exists>ks cs vp ex final.
          marshalKeyShareList keys [] = Ok ks \<and> marshalCipherSuites keys [] = Ok cs \<and>
          marshalValidityPeriod keys [] = Ok vp \<and> marshalExtensions keys [] = Ok ex \<and>
          Keys_MarshalBinary keys = Ok final \<and>
          take 2 final = PutUint16 (Version keys) \<and>
          drop 6 final = ks @ cs @ PutUint16 (PaddedLength keys) @ vp @ ex)) \<and>
   (VersionDraft03 \<le> Version keys \<and> PublicName keys = [] \<longrightarrow>
      Keys_MarshalBinary keys = Err (Wrap (New ''public name is empty'') ''marshal public name''))"
proof (intro conjI impI)
  assume "Version keys < VersionDraft03"
  then show "marshalPublicName keys data = Ok data"
    by (simp add: marshalPublicName_def)
next
  assume a: "Version keys < VersionDraft03 \<and> PublicName keys \<noteq> [] \<and> Keys keys \<noteq> [] \<and>
      (\<forall>e\<in>set (Keys keys). 4 \<le> unat (KeyShareEntry_Size e))"
  then obtain ks where ks: "marshalKeyShareList keys [] = Ok ks"
    using marshalKeyShareList_Ok by blast
  obtain ex where ex: "marshalExtensions keys [] = Ok ex"
    using marshalExtensions_Ok by blast
  let ?cs = "PutUint16 (of_nat (length (CipherSuites keys) * 2))
               @ concat (map PutUint16 (CipherSuites keys))"
  let ?vp = "PutUint64 (unix (NotBefore keys)) @ PutUint64 (unix (NotAfter keys))"
  let ?body = "ks @ ?cs @ PutUint16 (PaddedLength keys) @ ?vp @ ex"
  have data: "Keys_marshal_data keys = Ok (PutUint16 (Version keys) @ [0, 0, 0, 0] @ ?body)"
    using a Keys_marshal_data_old_version [OF _ ks ex] by simp
  have final: "Keys_MarshalBinary keys =
      Ok (PutUint16 (Version keys)
            @ take 4 (sha256_Sum256 (PutUint16 (Version keys) @ [0, 0, 0, 0] @ ?body)) @ ?body)"
    by (rule Keys_MarshalBinary_splice [OF data])
  have "marshalCipherSuites keys [] = Ok ?cs"
    by (simp add: marshalCipherSuites_eq)
  moreover have "marshalValidityPeriod keys [] = Ok ?vp"
    by (simp add: marshalValidityPeriod_def)
  ultimately show "\<exists>ks cs vp ex final.
          marshalKeyShareList keys [] = Ok ks \<and> marshalCipherSuites keys [] = Ok cs \<and>
          marshalValidityPeriod keys [] = Ok vp \<and> marshalExtensions keys [] = Ok ex \<and>
          Keys_MarshalBinary keys = Ok final \<and>
          take 2 final = PutUint16 (Version keys) \<and>
          drop 6 final = ks @ cs @ PutUint16 (PaddedLength keys) @ vp @ ex"
    using ks ex final by (simp add: length_PutUint16 length_sha256_Sum256)
next
  assume "VersionDraft03 \<le> Version keys \<and> PublicName keys = []"
  then show "Keys_MarshalBinary keys =
      Err (Wrap (New ''public name is empty'') ''marshal public name'')"
    by (simp add: Keys_MarshalBinary_def Keys_marshal_data_def marshalPublicName_def
        not_less [symmetric])
qed


theorem Keys_MarshalBinary_version_gating_witness:
  "(\<exists>final. Keys_MarshalBinary example_keys = Ok final \<and> take 2 final = [0xff, 0x01] \<and>
      drop 6 final = [0, 7, 0, 29, 0, 3, 1, 2, 3, 0, 2, 0x13, 0x01, 0x01, 0x04,
        0, 0, 0, 0, 0, 0, 0, 1, 0, 0, 0, 0, 0, 0, 0, 2, 0, 0]) \<and>
   Keys_MarshalBinary (example_keys\<lparr>Version := 0xff02, PublicName := []\<rparr>)
     = Err (Wrap (New ''public name is empty'') ''marshal public name'')"
proof -
  have hyps: "Version example_keys < VersionDraft03 \<and> PublicName example_keys \<noteq> [] \<and> Keys example_keys \<noteq> [] \<and>
      (\<forall>e\<in>set (Keys example_keys). 4 \<le> unat (KeyShareEntry_Size e))"
    by (simp add: example_keys_def VersionDraft03_def KeyShareEntry_Size_def)
  have hyps': "VersionDraft03 \<le> Version (example_keys\<lparr>Version := 0xff02, PublicName := []\<rparr>) \<and>
      PublicName (example_keys\<lparr>Version := 0xff02, PublicName := []\<rparr>) = []"
    by (simp add: VersionDraft03_def)
  have ks: "marshalKeyShareList example_keys [] = Ok [0, 7, 0, 29, 0, 3, 1, 2, 3]"
    by code_simp
  have cs: "marshalCipherSuites example_keys [] = Ok [0, 2, 0x13, 0x01]"
    by code_simp
  have vp: "marshalValidityPeriod example_keys [] = Ok [0, 0, 0, 0, 0, 0, 0, 1, 0, 0, 0, 0, 0, 0, 0, 2]"
    by code_simp
  have ex: "marshalExtensions example_keys [] = Ok [0, 0]"
    by code_simp
  have pl: "PutUint16 (PaddedLength example_keys) = [0x01, 0x04]"
    by code_simp
  have v: "PutUint16 (Version example_keys) = [0xff, 0x01]"
    by code_simp
  show ?thesis
    using Keys_MarshalBinary_version_gating [of example_keys "[]"] hyps
      Keys_MarshalBinary_version_gating [of "example_keys\<lparr>Version := 0xff02, PublicName := []\<rparr>" "[]"]
      hyps'
    unfolding ks cs vp ex pl v
    by auto
qed

section \<open>Unmarshalling the record, and the round trip\<close>

lemma length_PutUint64: "length (PutUint64 v) = 8"
  by (simp add: PutUint64_def)

lemma Uint64_step:
  assumes "8 \<le> m" and "m \<le> 64"
  shows "push_bit 8 (drop_bit m (v :: uint64)) OR ucast (ucast (drop_bit (m - 8) v) :: byte)
           = drop_bit (m - 8) v"
  by (rule bit_word_eqI) (use assms in \<open>auto simp: bit_simps\<close>)

lemma Uint64_first: "ucast (ucast (drop_bit 56 (v :: uint64)) :: byte) = drop_bit 56 v"
  by (rule bit_word_eqI) (auto simp: bit_simps dest: bit_imp_le_length)

lemma Uint64_PutUint64: "Uint64 (PutUint64 v @ rest) = v"
  using Uint64_step [of 56 v] Uint64_step [of 48 v] Uint64_step [of 40 v]
    Uint64_step [of 32 v] Uint64_step [of 24 v] Uint64_step [of 16 v] Uint64_step [of 8 v]
  by (simp add: Uint64_def PutUint64_def Uint64_first)

lemma binary_Read_uint16_PutUint16:
  "binary_Read_uint16 (PutUint16 v @ rest) = (Ok v, rest)"
  by (simp add: binary_Read_uint16_def Uint16_PutUint16 length_PutUint16)
     (simp add: PutUint16_def)

lemma binary_Read_uint64_PutUint64:
  "binary_Read_uint64 (PutUint64 v @ rest) = (Ok v, rest)"
  by (simp add: binary_Read_uint64_def Uint64_PutUint64 length_PutUint64)
     (simp add: PutUint64_def)

lemma unmarshalPublicName_old:
  "Version keys < VersionDraft03 \<Longrightarrow> unmarshalPublicName keys reader = (Ok keys, reader)"
  by (simp add: unmarshalPublicName_def)

lemma unmarshalPublicName_new:
  assumes "\<not> Version keys < VersionDraft03" and "1 \<le> length name" and "length name \<le> 255"
  shows "unmarshalPublicName keys ([of_nat (length name)] @ name @ rest)
           = (Ok (keys\<lparr>PublicName := name\<rparr>), rest)"
proof -
  have n: "unat (of_nat (length name) :: byte) = length name"
    using assms(3) by (simp add: unat_of_nat)
  then have nz: "(of_nat (length name) :: byte) \<noteq> 0"
    using assms(2) by (metis not_one_le_zero unat_0)
  have ne: "name @ rest \<noteq> []"
    using assms(2) by auto
  show ?thesis
    using assms(1) nz ne
    by (simp add: unmarshalPublicName_def Reader_ReadByte_def Reader_Read_def n go_copy_def)
qed

lemma unmarshalPaddedLength_PutUint16:
  "unmarshalPaddedLength keys (PutUint16 v @ rest) = (Ok (keys\<lparr>PaddedLength := v\<rparr>), rest)"
  by (simp add: unmarshalPaddedLength_def binary_Read_uint16_PutUint16)

lemma unmarshalValidityPeriod_PutUint64:
  "unmarshalValidityPeriod keys (PutUint64 a @ PutUint64 b @ rest)
     = (Ok (keys\<lparr>NotBefore := time_Unix a 0, NotAfter := time_Unix b 0\<rparr>), rest)"
  by (simp add: unmarshalValidityPeriod_def binary_Read_uint64_PutUint64)

lemma unmarshalExtensions_empty:
  "unmarshalExtensions keys (PutUint16 0 @ rest) = (Ok keys, rest)"
  by (simp add: unmarshalExtensions_def binary_Read_uint16_PutUint16)

lemma read_cipher_suites_encoded:
  "read_cipher_suites (length cs) i suites (concat (map PutUint16 cs) @ rest)
     = (Ok (suites @ cs), rest)"
  by (induction cs arbitrary: i suites) (simp_all add: binary_Read_uint16_PutUint16)

lemma unmarshalCipherSuites_encoded:
  assumes "length cs \<le> 32767"
  shows "unmarshalCipherSuites keys
           (PutUint16 (of_nat (length cs * 2)) @ concat (map PutUint16 cs) @ rest)
         = (Ok (keys\<lparr>CipherSuites := cs\<rparr>), rest)"
proof -
  let ?n = "of_nat (length cs) * 2 :: uint16"
  have u: "unat ?n = length cs * 2"
    using assms by (simp add: unat_word_ariths unat_of_nat)
  have even: "?n mod 2 = 0"
  proof -
    have "unat (?n mod 2) = 0"
      unfolding unat_mod u by simp
    then show ?thesis by (simp only: unat_eq_zero)
  qed
  have half: "unat (?n div 2) = length cs"
    unfolding unat_div u by simp
  show ?thesis
    by (simp add: unmarshalCipherSuites_def binary_Read_uint16_PutUint16 even half
        read_cipher_suites_encoded)
qed

lemma KeyShareEntryList_UnmarshalBinary_single:
  assumes "length ke \<le> 65531"
  shows "KeyShareEntryList_UnmarshalBinary []
           (PutUint16 g @ PutUint16 (of_nat (length ke)) @ ke)
         = Ok [\<lparr>Group = g, KeyExchange = ke\<rparr>]"
proof -
  define data where "data = PutUint16 g @ PutUint16 (of_nat (length ke)) @ ke"
  let ?e = "\<lparr>Group = g, KeyExchange = ke\<rparr>"
  have dec: "KeyShareEntry_UnmarshalBinary data = Ok ?e"
    using KeyShareEntry_UnmarshalBinary_encoded [OF assms, of g "[]"] by (simp add: data_def)
  have len: "length data = length ke + 4"
    by (simp add: data_def length_PutUint16)
  have size: "unat (KeyShareEntry_Size ?e) = length ke + 4"
    using assms by (simp add: KeyShareEntry_Size_small)
  have "KeyShareEntryList_unmarshal_loop [] data 0
          = KeyShareEntryList_unmarshal_loop [?e] data (5 + length ke)"
    by (subst KeyShareEntryList_unmarshal_loop.simps)
       (simp add: dec len size KeyShareEntryList_Contains_def)
  also have "\<dots> = Ok [?e]"
    by (subst KeyShareEntryList_unmarshal_loop.simps) (simp add: len)
  finally show ?thesis
    by (simp add: KeyShareEntryList_UnmarshalBinary_def data_def)
qed

lemma KeyShareEntryList_MarshalBinary_single:
  assumes "length (KeyExchange e) \<le> 65531"
  shows "KeyShareEntryList_MarshalBinary [e] =
    Ok (PutUint16 (Group e) @ PutUint16 (of_nat (length (KeyExchange e))) @ KeyExchange e)"
  using assms
  by (simp add: KeyShareEntryList_MarshalBinary_def KeyShareEntryList_Size_def
      KeyShareEntry_MarshalBinary_small KeyShareEntry_Size_small copy_at_def go_copy_def
      length_PutUint16)

lemma marshalKeyShareList_single:
  assumes "Keys keys = [e]" and "length (KeyExchange e) \<le> 65531"
  shows "marshalKeyShareList keys data =
    Ok (data @ PutUint16 (KeyShareEntry_Size e)
          @ PutUint16 (Group e) @ PutUint16 (of_nat (length (KeyExchange e))) @ KeyExchange e)"
  using assms
  by (simp add: marshalKeyShareList_def KeyShareEntryList_MarshalBinary_single
      KeyShareEntryList_Size_def)

lemma unmarshalKeyShareList_single:
  assumes "length (KeyExchange e) \<le> 65531"
  shows "unmarshalKeyShareList keys
           (PutUint16 (KeyShareEntry_Size e)
             @ (PutUint16 (Group e) @ PutUint16 (of_nat (length (KeyExchange e))) @ KeyExchange e)
             @ rest)
         = (Ok (keys\<lparr>Keys := [e]\<rparr>), rest)"
proof -
  define entry where
    "entry = PutUint16 (Group e) @ PutUint16 (of_nat (length (KeyExchange e))) @ KeyExchange e"
  have size: "unat (KeyShareEntry_Size e) = length (KeyExchange e) + 4"
    using assms by (rule KeyShareEntry_Size_small)
  then have nz: "KeyShareEntry_Size e \<noteq> 0"
    by (metis add_is_0 unat_0 zero_neq_numeral)
  have len: "length entry = length (KeyExchange e) + 4"
    by (simp add: entry_def length_PutUint16)
  then have ne: "entry @ rest \<noteq> []"
    by auto
  have rd: "Reader_Read (entry @ rest) (replicate (unat (KeyShareEntry_Size e)) 0)
              = (Ok entry, rest)"
    using ne by (simp add: Reader_Read_def go_copy_def size len)
  have dec: "KeyShareEntryList_UnmarshalBinary [] entry = Ok [e]"
    using KeyShareEntryList_UnmarshalBinary_single [OF assms, of "Group e"]
    by (simp add: entry_def)
  have "unmarshalKeyShareList keys (PutUint16 (KeyShareEntry_Size e) @ entry @ rest)
         = (Ok (keys\<lparr>Keys := [e]\<rparr>), rest)"
    unfolding unmarshalKeyShareList_def binary_Read_uint16_PutUint16
    using nz by (simp add: rd dec)
  then show ?thesis
    by (simp only: entry_def)
qed

lemma unmarshal_step_Ok:
  "f keys reader = (Ok keys', reader') \<Longrightarrow>
     unmarshal_step msg f (Ok keys, reader) = (Ok keys', reader')"
  by (simp add: unmarshal_step_def wrap_def)

text \<open>Decoding what \<^verbatim>\<open>MarshalBinary\<close> wrote: the checksum matches, the sections follow.\<close>

lemma Keys_UnmarshalBinary_header:
  assumes "length (Checksum keys) = 4" and "length c = 4"
  shows "Keys_UnmarshalBinary keys (PutUint16 v @ c @ body) =
    (if c \<noteq> take 4 (sha256_Sum256 (PutUint16 v @ [0, 0, 0, 0] @ body))
     then Err ErrChecksumMismatch
     else fst (Keys_unmarshal_sections (keys\<lparr>Version := v, Checksum := c\<rparr>) body),
     PutUint16 v @ [0, 0, 0, 0] @ body)"
proof -
  let ?b = "PutUint16 v @ c @ body"
  have v: "Uint16 ?b = v"
    by (rule Uint16_PutUint16)
  have c: "go_copy (Checksum keys) (drop 2 ?b) = c"
    using assms by (simp add: go_copy_def length_PutUint16)
  have z: "copy_at 2 ?b [0, 0, 0, 0] = PutUint16 v @ [0, 0, 0, 0] @ body"
    using assms(2) by (simp add: copy_at_def go_copy_def length_PutUint16)
  have d: "drop 6 (PutUint16 v @ [0, 0, 0, 0] @ body) = body"
    by (simp add: length_PutUint16)
  have l: "\<not> length ?b < 2" "\<not> length (PutUint16 v @ [0, 0, 0, 0] @ body) < 6"
    by (simp_all add: length_PutUint16)
  show ?thesis
    unfolding Keys_UnmarshalBinary_def Let_def v c z d
    using l by (simp del: append_assoc)
qed

lemma marshalPublicName_section:
  assumes "Version r < VersionDraft03 \<or> 1 \<le> length (PublicName r) \<and> length (PublicName r) \<le> 255"
  shows "marshalPublicName r data = Ok (data @ name_section r)"
  using assms by (auto simp: marshalPublicName_def name_section_def)

lemma marshalExtensions_empty:
  "Extensions r = [] \<Longrightarrow> marshalExtensions r data = Ok (data @ PutUint16 0)"
  by (simp add: marshalExtensions_def ExtensionList_Size_def)

lemma Keys_marshal_data_single:
  assumes "Keys r = [e]" and "length (KeyExchange e) \<le> 65531"
    and "Version r < VersionDraft03 \<or> 1 \<le> length (PublicName r) \<and> length (PublicName r) \<le> 255"
    and "Extensions r = []"
  shows "Keys_marshal_data r =
    Ok (PutUint16 (Version r) @ [0, 0, 0, 0] @ name_section r
        @ PutUint16 (KeyShareEntry_Size e)
        @ (PutUint16 (Group e) @ PutUint16 (of_nat (length (KeyExchange e))) @ KeyExchange e)
        @ PutUint16 (of_nat (length (CipherSuites r) * 2)) @ concat (map PutUint16 (CipherSuites r))
        @ PutUint16 (PaddedLength r)
        @ PutUint64 (unix (NotBefore r)) @ PutUint64 (unix (NotAfter r))
        @ PutUint16 0)"
  unfolding Keys_marshal_data_def
  by (simp add: marshalPublicName_section [OF assms(3)]
      marshalKeyShareList_single [OF assms(1,2)] marshalCipherSuites_eq
      marshalValidityPeriod_def marshalExtensions_empty [OF assms(4)])

lemma time_Unix_unix: "nsec t = 0 \<Longrightarrow> time_Unix (unix t) 0 = t"
  by (cases t) (simp add: time_Unix_def)

lemma Keys_unmarshal_sections_single:
  assumes "length (KeyExchange e) \<le> 65531"
    and "Version r < VersionDraft03 \<and> PublicName r = [] \<or>
         \<not> Version r < VersionDraft03 \<and> 1 \<le> length (PublicName r) \<and> length (PublicName r) \<le> 255"
    and "length (CipherSuites r) \<le> 32767"
    and "Version k = Version r" and "PublicName k = []"
  shows "Keys_unmarshal_sections k
      (name_section r
        @ PutUint16 (KeyShareEntry_Size e)
        @ (PutUint16 (Group e) @ PutUint16 (of_nat (length (KeyExchange e))) @ KeyExchange e)
        @ PutUint16 (of_nat (length (CipherSuites r) * 2)) @ concat (map PutUint16 (CipherSuites r))
        @ PutUint16 (PaddedLength r)
        @ PutUint64 (unix (NotBefore r)) @ PutUint64 (unix (NotAfter r))
        @ PutUint16 0)
    = (Ok (k\<lparr>PublicName := PublicName r, Keys := [e], CipherSuites := CipherSuites r,
              PaddedLength := PaddedLength r,
              NotBefore := time_Unix (unix (NotBefore r)) 0,
              NotAfter := time_Unix (unix (NotAfter r)) 0\<rparr>), [])"
proof -
  define R6 where "R6 = PutUint16 0 @ ([] :: byte list)"
  define R5 where "R5 = PutUint64 (unix (NotBefore r)) @ PutUint64 (unix (NotAfter r)) @ R6"
  define R4 where "R4 = PutUint16 (PaddedLength r) @ R5"
  define R3 where "R3 = PutUint16 (of_nat (length (CipherSuites r) * 2))
                          @ concat (map PutUint16 (CipherSuites r)) @ R4"
  define R2 where "R2 = PutUint16 (KeyShareEntry_Size e)
     @ (PutUint16 (Group e) @ PutUint16 (of_nat (length (KeyExchange e))) @ KeyExchange e) @ R3"
  define R1 where "R1 = name_section r @ R2"
  define k1 where "k1 = k\<lparr>PublicName := PublicName r\<rparr>"
  define k2 where "k2 = k1\<lparr>Keys := [e]\<rparr>"
  define k3 where "k3 = k2\<lparr>CipherSuites := CipherSuites r\<rparr>"
  define k4 where "k4 = k3\<lparr>PaddedLength := PaddedLength r\<rparr>"
  define k5 where "k5 = k4\<lparr>NotBefore := time_Unix (unix (NotBefore r)) 0,
                             NotAfter := time_Unix (unix (NotAfter r)) 0\<rparr>"
  have s1: "unmarshalPublicName k R1 = (Ok k1, R2)"
  proof (cases "Version r < VersionDraft03")
    case True
    with assms(2) have "PublicName r = []" by auto
    with assms(5) have "k1 = k" by (simp add: k1_def)
    with True assms(4) show ?thesis
      by (simp add: unmarshalPublicName_old R1_def name_section_def)
  next
    case False
    with assms(2) have n: "1 \<le> length (PublicName r)" "length (PublicName r) \<le> 255" by auto
    from False assms(4) have "\<not> Version k < VersionDraft03" by simp
    from unmarshalPublicName_new [OF this n, of R2] False show ?thesis
      by (simp add: R1_def name_section_def k1_def)
  qed
  have s2: "unmarshalKeyShareList k1 R2 = (Ok k2, R3)"
    unfolding R2_def k2_def by (rule unmarshalKeyShareList_single [OF assms(1)])
  have s3: "unmarshalCipherSuites k2 R3 = (Ok k3, R4)"
    unfolding R3_def k3_def by (rule unmarshalCipherSuites_encoded [OF assms(3)])
  have s4: "unmarshalPaddedLength k3 R4 = (Ok k4, R5)"
    unfolding R4_def k4_def by (rule unmarshalPaddedLength_PutUint16)
  have s5: "unmarshalValidityPeriod k4 R5 = (Ok k5, R6)"
    unfolding R5_def k5_def by (rule unmarshalValidityPeriod_PutUint64)
  have s6: "unmarshalExtensions k5 R6 = (Ok k5, [])"
    unfolding R6_def by (rule unmarshalExtensions_empty)
  have "Keys_unmarshal_sections k R1 = (Ok k5, [])"
    by (simp only: Keys_unmarshal_sections_def
        unmarshal_step_Ok [where f = unmarshalPublicName, OF s1]
        unmarshal_step_Ok [where f = unmarshalKeyShareList, OF s2]
        unmarshal_step_Ok [where f = unmarshalCipherSuites, OF s3]
        unmarshal_step_Ok [where f = unmarshalPaddedLength, OF s4]
        unmarshal_step_Ok [where f = unmarshalValidityPeriod, OF s5]
        unmarshal_step_Ok [where f = unmarshalExtensions, OF s6])
  then show ?thesis
    by (simp add: R1_def R2_def R3_def R4_def R5_def R6_def k1_def k2_def k3_def k4_def k5_def)
qed

lemma Keys_roundtrip_core:
  assumes "Keys r = [e]" and "length (KeyExchange e) \<le> 65531"
    and "Version r < VersionDraft03 \<and> PublicName r = [] \<or>
         VersionDraft03 \<le> Version r \<and> 1 \<le> length (PublicName r) \<and> length (PublicName r) \<le> 255"
    and "length (CipherSuites r) \<le> 32767"
    and "nsec (NotBefore r) = 0" and "nsec (NotAfter r) = 0"
    and "Extensions r = []"
    and "Checksum r = Keys_digest r"
  shows "\<exists>b. Keys_MarshalBinary r = Ok b \<and> fst (Keys_UnmarshalBinary Keys_new b) = Ok r"
proof -
  define body where "body = name_section r
        @ PutUint16 (KeyShareEntry_Size e)
        @ (PutUint16 (Group e) @ PutUint16 (of_nat (length (KeyExchange e))) @ KeyExchange e)
        @ PutUint16 (of_nat (length (CipherSuites r) * 2)) @ concat (map PutUint16 (CipherSuites r))
        @ PutUint16 (PaddedLength r)
        @ PutUint64 (unix (NotBefore r)) @ PutUint64 (unix (NotAfter r))
        @ PutUint16 0"
  define data where "data = PutUint16 (Version r) @ [0, 0, 0, 0] @ body"
  define c where "c = take 4 (sha256_Sum256 data)"
  define k where "k = Keys_new\<lparr>Version := Version r, Checksum := c\<rparr>"
  from assms(3) have name: "Version r < VersionDraft03 \<or>
      1 \<le> length (PublicName r) \<and> length (PublicName r) \<le> 255"
    by auto
  from assms(3) have name': "Version r < VersionDraft03 \<and> PublicName r = [] \<or>
      \<not> Version r < VersionDraft03 \<and> 1 \<le> length (PublicName r) \<and> length (PublicName r) \<le> 255"
    by (auto simp: not_less)
  have md: "Keys_marshal_data r = Ok data"
    unfolding data_def body_def
    by (rule Keys_marshal_data_single [OF assms(1,2) name assms(7)])
  have enc: "Keys_MarshalBinary r = Ok (PutUint16 (Version r) @ c @ body)"
    using Keys_MarshalBinary_splice [of r "Version r" body] md
    by (simp add: data_def c_def)
  have cr: "Checksum r = c"
    using assms(8) by (simp add: Keys_digest_def md c_def)
  have lc: "length c = 4"
    by (simp add: c_def length_sha256_Sum256)
  have "Keys_UnmarshalBinary Keys_new (PutUint16 (Version r) @ c @ body)
          = (fst (Keys_unmarshal_sections k body), data)"
    using Keys_UnmarshalBinary_header [of Keys_new c "Version r" body] lc
    by (simp add: Keys_new_def c_def data_def k_def)
  moreover have "Keys_unmarshal_sections k body
    = (Ok (k\<lparr>PublicName := PublicName r, Keys := [e], CipherSuites := CipherSuites r,
              PaddedLength := PaddedLength r,
              NotBefore := time_Unix (unix (NotBefore r)) 0,
              NotAfter := time_Unix (unix (NotAfter r)) 0\<rparr>), [])"
    unfolding body_def
    by (rule Keys_unmarshal_sections_single [OF assms(2) name' assms(4)])
       (simp_all add: k_def Keys_new_def)
  moreover have "k\<lparr>PublicName := PublicName r, Keys := [e], CipherSuites := CipherSuites r,
              PaddedLength := PaddedLength r,
              NotBefore := time_Unix (unix (NotBefore r)) 0,
              NotAfter := time_Unix (unix (NotAfter r)) 0\<rparr> = r"
    using assms(1,5,6,7) cr
    by (simp add: k_def Keys_new_def time_Unix_unix)
  ultimately show ?thesis
    using enc by simp
qed

lemma marshal_Checksum:
  "marshalPublicName (r\<lparr>Checksum := c\<rparr>) = marshalPublicName r"
  "marshalKeyShareList (r\<lparr>Checksum := c\<rparr>) = marshalKeyShareList r"
  "marshalCipherSuites (r\<lparr>Checksum := c\<rparr>) = marshalCipherSuites r"
  "marshalValidityPeriod (r\<lparr>Checksum := c\<rparr>) = marshalValidityPeriod r"
  "marshalExtensions (r\<lparr>Checksum := c\<rparr>) = marshalExtensions r"
  by (rule ext, simp add: marshalPublicName_def marshalKeyShareList_def
      marshalCipherSuites_def marshalValidityPeriod_def marshalExtensions_def Let_def
      cong: result.case_cong)+

lemma Keys_marshal_data_Checksum [simp]:
  "Keys_marshal_data (r\<lparr>Checksum := c\<rparr>) = Keys_marshal_data r"
  by (simp add: Keys_marshal_data_def marshal_Checksum)

lemma Keys_digest_Checksum [simp]: "Keys_digest (r\<lparr>Checksum := c\<rparr>) = Keys_digest r"
  by (simp add: Keys_digest_def)

lemma Keys_MarshalBinary_Checksum [simp]:
  "Keys_MarshalBinary (r\<lparr>Checksum := c\<rparr>) = Keys_MarshalBinary r"
  by (simp add: Keys_MarshalBinary_def)

lemma Keys_with_checksum_digest: "Checksum (Keys_with_checksum r) = Keys_digest (Keys_with_checksum r)"
  by (simp add: Keys_with_checksum_def)

text \<open>What the decoder gives for the bytes of a record, whatever the checksum bytes are.\<close>

lemma decode_marshalled:
  assumes "Keys_marshal_data r = Ok (PutUint16 v @ [0, 0, 0, 0] @ body)"
  shows "\<exists>b c. Keys_MarshalBinary r = Ok b \<and> fst (Keys_UnmarshalBinary Keys_new b)
           = fst (Keys_unmarshal_sections (Keys_new\<lparr>Version := v, Checksum := c\<rparr>) body)"
proof -
  let ?c = "take 4 (sha256_Sum256 (PutUint16 v @ [0, 0, 0, 0] @ body))"
  have "length ?c = 4"
    by (simp add: length_sha256_Sum256)
  then have "fst (Keys_UnmarshalBinary Keys_new (PutUint16 v @ ?c @ body))
           = fst (Keys_unmarshal_sections (Keys_new\<lparr>Version := v, Checksum := ?c\<rparr>) body)"
    using Keys_UnmarshalBinary_header [of Keys_new ?c v body]
    by (simp add: Keys_new_def)
  with Keys_MarshalBinary_splice [OF assms] show ?thesis
    by blast
qed

lemma not_roundtrip:
  assumes "Keys_marshal_data r = Ok (PutUint16 v @ [0, 0, 0, 0] @ body)"
    and "\<And>c. fst (Keys_unmarshal_sections (Keys_new\<lparr>Version := v, Checksum := c\<rparr>) body) \<noteq> Ok r"
  shows "\<not> Keys_roundtrip r"
proof
  assume rt: "Keys_roundtrip r"
  from decode_marshalled [OF assms(1)] obtain b c where
    b: "Keys_MarshalBinary r = Ok b" and
    d: "fst (Keys_UnmarshalBinary Keys_new b)
          = fst (Keys_unmarshal_sections (Keys_new\<lparr>Version := v, Checksum := c\<rparr>) body)"
    by blast
  from rt b have "fst (Keys_UnmarshalBinary Keys_new b) = Ok r"
    by (simp add: Keys_roundtrip_def)
  with d assms(2) [of c] show False by simp
qed

lemma Keys_valid_with_checksum:
  assumes "Keys r \<noteq> []" and "distinct (map Group (Keys r))"
    and "Version r < VersionDraft03 \<or> 1 \<le> length (PublicName r) \<and> length (PublicName r) \<le> 255"
  shows "Keys_valid (Keys_with_checksum r)"
  using assms by (simp add: Keys_valid_def Keys_with_checksum_def)

text \<open>A public name in a record of the first draft version is not written.\<close>

lemma example_keys_data:
  "Keys_marshal_data example_keys
    = Ok (PutUint16 0xff01 @ [0, 0, 0, 0] @
       [0, 7, 0, 29, 0, 3, 1, 2, 3, 0, 2, 19, 1, 1, 4,
        0, 0, 0, 0, 0, 0, 0, 1, 0, 0, 0, 0, 0, 0, 0, 2, 0, 0])"
  by code_simp

lemma example_keys_sections:
  "fst (Keys_unmarshal_sections (Keys_new\<lparr>Version := 0xff01, Checksum := c\<rparr>)
       [0, 7, 0, 29, 0, 3, 1, 2, 3, 0, 2, 19, 1, 1, 4,
        0, 0, 0, 0, 0, 0, 0, 1, 0, 0, 0, 0, 0, 0, 0, 2, 0, 0])
    = Ok (example_keys\<lparr>Checksum := c, PublicName := []\<rparr>)"
  by code_simp

lemma not_roundtrip_old_name: "\<not> Keys_roundtrip (Keys_with_checksum example_keys)"
proof (rule not_roundtrip)
  show "Keys_marshal_data (Keys_with_checksum example_keys)
    = Ok (PutUint16 0xff01 @ [0, 0, 0, 0] @
       [0, 7, 0, 29, 0, 3, 1, 2, 3, 0, 2, 19, 1, 1, 4,
        0, 0, 0, 0, 0, 0, 0, 1, 0, 0, 0, 0, 0, 0, 0, 2, 0, 0])"
    by (simp only: Keys_with_checksum_def Keys_marshal_data_Checksum example_keys_data)
next
  fix c
  show "fst (Keys_unmarshal_sections (Keys_new\<lparr>Version := 0xff01, Checksum := c\<rparr>)
       [0, 7, 0, 29, 0, 3, 1, 2, 3, 0, 2, 19, 1, 1, 4,
        0, 0, 0, 0, 0, 0, 0, 1, 0, 0, 0, 0, 0, 0, 0, 2, 0, 0])
      \<noteq> Ok (Keys_with_checksum example_keys)"
    unfolding example_keys_sections
    by (simp add: Keys_with_checksum_def example_keys_def)
qed

text \<open>Two key shares: the second one is read one byte late.\<close>

lemma two_shares_data:
  "Keys_marshal_data (example_keys\<lparr>Version := 0xff02,
      Keys := [\<lparr>Group = 23, KeyExchange = []\<rparr>, \<lparr>Group = 29, KeyExchange = []\<rparr>]\<rparr>)
    = Ok (PutUint16 0xff02 @ [0, 0, 0, 0] @
       [1, 101, 0, 8, 0, 23, 0, 0, 0, 29, 0, 0, 0, 2, 19, 1, 1, 4,
        0, 0, 0, 0, 0, 0, 0, 1, 0, 0, 0, 0, 0, 0, 0, 2, 0, 0])"
  by code_simp

lemma two_shares_sections:
  "fst (Keys_unmarshal_sections (Keys_new\<lparr>Version := 0xff02, Checksum := c\<rparr>)
       [1, 101, 0, 8, 0, 23, 0, 0, 0, 29, 0, 0, 0, 2, 19, 1, 1, 4,
        0, 0, 0, 0, 0, 0, 0, 1, 0, 0, 0, 0, 0, 0, 0, 2, 0, 0])
    = Err (Wrap (Wrap (Wrap ErrUnexpectedEOF ''buffer is too small for key share entry'')
             ''unmarshal key share entry'') ''unmarshal key share list'')"
  by code_simp

lemma not_roundtrip_two_shares:
  "\<not> Keys_roundtrip (Keys_with_checksum (example_keys\<lparr>Version := 0xff02,
      Keys := [\<lparr>Group = 23, KeyExchange = []\<rparr>, \<lparr>Group = 29, KeyExchange = []\<rparr>]\<rparr>))"
  by (rule not_roundtrip [where v = "0xff02"
        and body = "[1, 101, 0, 8, 0, 23, 0, 0, 0, 29, 0, 0, 0, 2, 19, 1, 1, 4,
        0, 0, 0, 0, 0, 0, 0, 1, 0, 0, 0, 0, 0, 0, 0, 2, 0, 0]"])
     (simp_all only: Keys_with_checksum_def Keys_marshal_data_Checksum two_shares_data
        two_shares_sections result.distinct not_False_eq_True)

text \<open>An extension: the zero bytes written before it are read as its type.\<close>

lemma one_extension_data:
  "Keys_marshal_data (example_keys\<lparr>Version := 0xff02,
      Extensions := [AddressSet [[1, 2, 3, 4]]]\<rparr>)
    = Ok (PutUint16 0xff02 @ [0, 0, 0, 0] @
       [1, 101, 0, 7, 0, 29, 0, 3, 1, 2, 3, 0, 2, 19, 1, 1, 4,
        0, 0, 0, 0, 0, 0, 0, 1, 0, 0, 0, 0, 0, 0, 0, 2,
        0, 7, 0, 0, 0, 0, 0, 0, 0, 16, 1, 0, 0, 0, 0, 0, 4, 1, 2, 3, 4])"
  by code_simp

lemma one_extension_sections:
  "fst (Keys_unmarshal_sections (Keys_new\<lparr>Version := 0xff02, Checksum := c\<rparr>)
       [1, 101, 0, 7, 0, 29, 0, 3, 1, 2, 3, 0, 2, 19, 1, 1, 4,
        0, 0, 0, 0, 0, 0, 0, 1, 0, 0, 0, 0, 0, 0, 0, 2,
        0, 7, 0, 0, 0, 0, 0, 0, 0, 16, 1, 0, 0, 0, 0, 0, 4, 1, 2, 3, 4])
    = Err (Wrap (Wrap ErrUnsupportedExtensionType ''extension_type(0)'')
             ''unmarshal extensions list'')"
  by code_simp

lemma not_roundtrip_one_extension:
  "\<not> Keys_roundtrip (Keys_with_checksum (example_keys\<lparr>Version := 0xff02,
      Extensions := [AddressSet [[1, 2, 3, 4]]]\<rparr>))"
  by (rule not_roundtrip [where v = "0xff02"
        and body = "[1, 101, 0, 7, 0, 29, 0, 3, 1, 2, 3, 0, 2, 19, 1, 1, 4,
        0, 0, 0, 0, 0, 0, 0, 1, 0, 0, 0, 0, 0, 0, 0, 2,
        0, 7, 0, 0, 0, 0, 0, 0, 0, 16, 1, 0, 0, 0, 0, 0, 4, 1, 2, 3, 4]"])
     (simp_all only: Keys_with_checksum_def Keys_marshal_data_Checksum one_extension_data
        one_extension_sections result.distinct not_False_eq_True)

text \<open>Nanoseconds are not written: the times read have none.\<close>

lemma nanoseconds_data:
  "Keys_marshal_data (example_keys\<lparr>Version := 0xff02, NotBefore := \<lparr>unix = 1, nsec = 5\<rparr>\<rparr>)
    = Ok (PutUint16 0xff02 @ [0, 0, 0, 0] @
       [1, 101, 0, 7, 0, 29, 0, 3, 1, 2, 3, 0, 2, 19, 1, 1, 4,
        0, 0, 0, 0, 0, 0, 0, 1, 0, 0, 0, 0, 0, 0, 0, 2, 0, 0])"
  by code_simp

lemma nanoseconds_sections:
  "fst (Keys_unmarshal_sections (Keys_new\<lparr>Version := 0xff02, Checksum := c\<rparr>)
       [1, 101, 0, 7, 0, 29, 0, 3, 1, 2, 3, 0, 2, 19, 1, 1, 4,
        0, 0, 0, 0, 0, 0, 0, 1, 0, 0, 0, 0, 0, 0, 0, 2, 0, 0])
    = Ok (example_keys\<lparr>Version := 0xff02, Checksum := c\<rparr>)"
  by code_simp

lemma not_roundtrip_nanoseconds:
  "\<not> Keys_roundtrip (Keys_with_checksum
      (example_keys\<lparr>Version := 0xff02, NotBefore := \<lparr>unix = 1, nsec = 5\<rparr>\<rparr>))"
proof (rule not_roundtrip)
  show "Keys_marshal_data (Keys_with_checksum
      (example_keys\<lparr>Version := 0xff02, NotBefore := \<lparr>unix = 1, nsec = 5\<rparr>\<rparr>))
    = Ok (PutUint16 0xff02 @ [0, 0, 0, 0] @
       [1, 101, 0, 7, 0, 29, 0, 3, 1, 2, 3, 0, 2, 19, 1, 1, 4,
        0, 0, 0, 0, 0, 0, 0, 1, 0, 0, 0, 0, 0, 0, 0, 2, 0, 0])"
    by (simp only: Keys_with_checksum_def Keys_marshal_data_Checksum nanoseconds_data)
next
  fix c
  show "fst (Keys_unmarshal_sections (Keys_new\<lparr>Version := 0xff02, Checksum := c\<rparr>)
       [1, 101, 0, 7, 0, 29, 0, 3, 1, 2, 3, 0, 2, 19, 1, 1, 4,
        0, 0, 0, 0, 0, 0, 0, 1, 0, 0, 0, 0, 0, 0, 0, 2, 0, 0])
      \<noteq> Ok (Keys_with_checksum
      (example_keys\<lparr>Version := 0xff02, NotBefore := \<lparr>unix = 1, nsec = 5\<rparr>\<rparr>))"
    unfolding nanoseconds_sections
    by (simp add: Keys_with_checksum_def example_keys_def)
qed

text \<open>A key of 65532 bytes: the entry's size wraps to 0 and marshalling it panics.\<close>

lemma long_key_data:
  "Keys_marshal_data (example_keys\<lparr>Version := 0xff02,
      Keys := [\<lparr>Group = 29, KeyExchange = replicate 65532 0\<rparr>]\<rparr>) = Panic"
  by (simp add: Keys_marshal_data_def marshalPublicName_def marshalKeyShareList_def
      KeyShareEntryList_MarshalBinary_def KeyShareEntryList_Size_def KeyShareEntry_Size_def
      KeyShareEntry_MarshalBinary_def example_keys_def VersionDraft03_def)

lemma not_roundtrip_long_key:
  "\<not> Keys_roundtrip (Keys_with_checksum (example_keys\<lparr>Version := 0xff02,
      Keys := [\<lparr>Group = 29, KeyExchange = replicate 65532 0\<rparr>]\<rparr>))"
  by (simp add: Keys_roundtrip_def Keys_with_checksum_def Keys_MarshalBinary_def long_key_data)

text \<open>The length of a cipher suite list is read from two bytes: at most 32767 suites.\<close>

lemma read_cipher_suites_length:
  "read_cipher_suites n i suites reader = (Ok suites', reader')
     \<Longrightarrow> length suites' = length suites + n"
proof (induction n arbitrary: i suites reader)
  case 0
  then show ?case by simp
next
  case (Suc n)
  then show ?case
    by (auto split: prod.splits result.splits)
qed

lemma unmarshalCipherSuites_length:
  assumes "unmarshalCipherSuites keys reader = (Ok keys', reader')"
  shows "length (CipherSuites keys') \<le> 32767"
proof -
  from assms obtain w :: uint16 and rd where
    "read_cipher_suites (unat (w div 2)) 0 [] rd = (Ok (CipherSuites keys'), reader')"
    by (auto simp: unmarshalCipherSuites_def split: prod.splits result.splits if_splits)
  then have "length (CipherSuites keys') = unat (w div 2)"
    by (auto dest: read_cipher_suites_length)
  also have "\<dots> = unat w div 2"
    by (simp add: unat_div)
  also have "\<dots> \<le> 32767"
    using unsigned_less [of w, where 'a = nat] by simp
  finally show ?thesis .
qed

lemma unmarshal_step_OkD:
  assumes "unmarshal_step msg f s = (Ok keys', reader')"
  shows "\<exists>keys reader. s = (Ok keys, reader) \<and> f keys reader = (Ok keys', reader')"
  using assms
  by (auto simp: unmarshal_step_def wrap_def split: prod.splits result.splits)

lemma unmarshalPaddedLength_CipherSuites:
  "unmarshalPaddedLength keys reader = (Ok keys', reader')
     \<Longrightarrow> CipherSuites keys' = CipherSuites keys"
  by (auto simp: unmarshalPaddedLength_def split: prod.splits result.splits)

lemma unmarshalValidityPeriod_CipherSuites:
  "unmarshalValidityPeriod keys reader = (Ok keys', reader')
     \<Longrightarrow> CipherSuites keys' = CipherSuites keys"
  by (auto simp: unmarshalValidityPeriod_def split: prod.splits result.splits)

lemma unmarshalExtensions_CipherSuites:
  "unmarshalExtensions keys reader = (Ok keys', reader')
     \<Longrightarrow> CipherSuites keys' = CipherSuites keys"
  by (auto simp: unmarshalExtensions_def split: prod.splits result.splits if_splits)

lemma Keys_unmarshal_sections_CipherSuites:
  assumes "Keys_unmarshal_sections keys reader = (Ok keys', reader')"
  shows "length (CipherSuites keys') \<le> 32767"
proof -
  from assms obtain k5 r5 where
    s6: "unmarshalExtensions k5 r5 = (Ok keys', reader')" and
    t5: "unmarshal_step ''unmarshal validity period'' unmarshalValidityPeriod
      (unmarshal_step ''read padded length'' unmarshalPaddedLength
       (unmarshal_step ''unmarshal cipher suite list'' unmarshalCipherSuites
        (unmarshal_step ''unmarshal key share list'' unmarshalKeyShareList
         (unmarshal_step ''unmarshal public name'' unmarshalPublicName
          (Ok keys, reader))))) = (Ok k5, r5)"
    unfolding Keys_unmarshal_sections_def by (blast dest: unmarshal_step_OkD)
  from t5 obtain k4 r4 where
    s5: "unmarshalValidityPeriod k4 r4 = (Ok k5, r5)" and
    t4: "unmarshal_step ''read padded length'' unmarshalPaddedLength
       (unmarshal_step ''unmarshal cipher suite list'' unmarshalCipherSuites
        (unmarshal_step ''unmarshal key share list'' unmarshalKeyShareList
         (unmarshal_step ''unmarshal public name'' unmarshalPublicName
          (Ok keys, reader)))) = (Ok k4, r4)"
    by (blast dest: unmarshal_step_OkD)
  from t4 obtain k3 r3 where
    s4: "unmarshalPaddedLength k3 r3 = (Ok k4, r4)" and
    t3: "unmarshal_step ''unmarshal cipher suite list'' unmarshalCipherSuites
        (unmarshal_step ''unmarshal key share list'' unmarshalKeyShareList
         (unmarshal_step ''unmarshal public name'' unmarshalPublicName
          (Ok keys, reader))) = (Ok k3, r3)"
    by (blast dest: unmarshal_step_OkD)
  from t3 obtain k2 r2 where s3: "unmarshalCipherSuites k2 r2 = (Ok k3, r3)"
    by (blast dest: unmarshal_step_OkD)
  have "CipherSuites keys' = CipherSuites k3"
    using unmarshalExtensions_CipherSuites [OF s6] unmarshalValidityPeriod_CipherSuites [OF s5]
      unmarshalPaddedLength_CipherSuites [OF s4] by simp
  with unmarshalCipherSuites_length [OF s3] show ?thesis by simp
qed

lemma Keys_UnmarshalBinary_CipherSuites:
  assumes "fst (Keys_UnmarshalBinary keys b) = Ok keys'"
  shows "length (CipherSuites keys') \<le> 32767"
proof -
  from assms obtain k rd where "fst (Keys_unmarshal_sections k rd) = Ok keys'"
    by (auto simp: Keys_UnmarshalBinary_def Let_def split: if_splits)
  then obtain rd' where "Keys_unmarshal_sections k rd = (Ok keys', rd')"
    by (cases "Keys_unmarshal_sections k rd") simp
  then show ?thesis
    by (rule Keys_unmarshal_sections_CipherSuites)
qed

lemma not_roundtrip_many_suites:
  "\<not> Keys_roundtrip (Keys_with_checksum (example_keys\<lparr>Version := 0xff02,
      CipherSuites := replicate 32768 0x1301\<rparr>))"
proof
  let ?r = "Keys_with_checksum (example_keys\<lparr>Version := 0xff02,
      CipherSuites := replicate 32768 0x1301\<rparr>)"
  assume "Keys_roundtrip ?r"
  then obtain b where "fst (Keys_UnmarshalBinary Keys_new b) = Ok ?r"
    by (auto simp: Keys_roundtrip_def split: result.splits)
  from Keys_UnmarshalBinary_CipherSuites [OF this] show False
    by (simp add: Keys_with_checksum_def)
qed

text \<open>
  C1, as amended. Let a record have exactly one key share, of at most 65531 key bytes,
  at most 32767 cipher suites, no extension, validity times in whole seconds, a public
  name of 1 to 255 bytes when its version is \<^verbatim>\<open>VersionDraft03\<close> or later and an empty
  public name before, and the checksum of its own encoding. Then \<^verbatim>\<open>MarshalBinary\<close>
  succeeds, and \<^verbatim>\<open>UnmarshalBinary\<close> of the bytes it returns, on a new record, succeeds
  with a record equal to the first in every field, the checksum included.
\<close>

theorem Keys_roundtrip_single_key:
  assumes "Keys r = [e]" and "length (KeyExchange e) \<le> 65531"
    and "Version r < VersionDraft03 \<and> PublicName r = [] \<or>
         VersionDraft03 \<le> Version r \<and> 1 \<le> length (PublicName r) \<and> length (PublicName r) \<le> 255"
    and "length (CipherSuites r) \<le> 32767"
    and "nsec (NotBefore r) = 0" and "nsec (NotAfter r) = 0"
    and "Extensions r = []"
    and "Checksum r = Keys_digest r"
  shows "\<exists>b. Keys_MarshalBinary r = Ok b \<and> fst (Keys_UnmarshalBinary Keys_new b) = Ok r"
  using assms by (rule Keys_roundtrip_core)

text \<open>
  The record \<open>example_draft03\<close>: its 41 bytes, with the first four bytes of their
  SHA-256 in place, and the record read back from them.
\<close>

theorem Keys_roundtrip_single_key_witness:
  "Keys_MarshalBinary example_draft03 =
     Ok [255, 2, 117, 112, 227, 190, 1, 101, 0, 7, 0, 29, 0, 3, 1, 2, 3, 0, 2, 19, 1, 1, 4,
         0, 0, 0, 0, 0, 0, 0, 1, 0, 0, 0, 0, 0, 0, 0, 2, 0, 0] \<and>
   fst (Keys_UnmarshalBinary Keys_new
     [255, 2, 117, 112, 227, 190, 1, 101, 0, 7, 0, 29, 0, 3, 1, 2, 3, 0, 2, 19, 1, 1, 4,
      0, 0, 0, 0, 0, 0, 0, 1, 0, 0, 0, 0, 0, 0, 0, 2, 0, 0]) = Ok example_draft03"
proof -
  have d: "Keys_marshal_data example_draft03 =
     Ok [255, 2, 0, 0, 0, 0, 1, 101, 0, 7, 0, 29, 0, 3, 1, 2, 3, 0, 2, 19, 1, 1, 4,
         0, 0, 0, 0, 0, 0, 0, 1, 0, 0, 0, 0, 0, 0, 0, 2, 0, 0]"
    by code_simp
  have s: "take 4 (sha256_Sum256
        [255, 2, 0, 0, 0, 0, 1, 101, 0, 7, 0, 29, 0, 3, 1, 2, 3, 0, 2, 19, 1, 1, 4,
         0, 0, 0, 0, 0, 0, 0, 1, 0, 0, 0, 0, 0, 0, 0, 2, 0, 0]) = [117, 112, 227, 190]"
    by code_simp
  have pv: "PutUint16 0xff02 = [255, 2]"
    by code_simp
  have enc: "Keys_MarshalBinary example_draft03 =
     Ok [255, 2, 117, 112, 227, 190, 1, 101, 0, 7, 0, 29, 0, 3, 1, 2, 3, 0, 2, 19, 1, 1, 4,
         0, 0, 0, 0, 0, 0, 0, 1, 0, 0, 0, 0, 0, 0, 0, 2, 0, 0]"
    using Keys_MarshalBinary_splice [of example_draft03 "0xff02"
        "[1, 101, 0, 7, 0, 29, 0, 3, 1, 2, 3, 0, 2, 19, 1, 1, 4,
          0, 0, 0, 0, 0, 0, 0, 1, 0, 0, 0, 0, 0, 0, 0, 2, 0, 0]"]
    by (simp add: pv d s)
  have dig: "Checksum example_draft03 = Keys_digest example_draft03"
    by (simp add: Keys_digest_def d s) (simp add: example_draft03_def)
  have "\<exists>b. Keys_MarshalBinary example_draft03 = Ok b \<and>
          fst (Keys_UnmarshalBinary Keys_new b) = Ok example_draft03"
    by (rule Keys_roundtrip_single_key [of _ "\<lparr>Group = 29, KeyExchange = [1, 2, 3]\<rparr>"])
       (simp_all add: dig, simp_all add: example_draft03_def example_keys_def VersionDraft03_def)
  with enc show ?thesis by simp
qed

text \<open>
  C1 as stated fails. Each of these six records has a key share list that is not empty
  and has no group twice, a public name of one byte, and the checksum of its own
  encoding, and for none of them do \<^verbatim>\<open>MarshalBinary\<close> and then \<^verbatim>\<open>UnmarshalBinary\<close>
  give the record back: a public name in a record of the first draft version is not
  written, and read back empty; with two key shares the second is read one byte late, and
  the decoder fails; with an extension the decoder reads the zero bytes before it as a
  type, and fails; nanoseconds of a time are not written; 32768 cipher suites have a
  length of 0 in 16 bits; a key of 65532 bytes makes \<^verbatim>\<open>MarshalBinary\<close> panic.
\<close>

theorem Keys_roundtrip_counterexample:
  "Keys_valid (Keys_with_checksum example_keys) \<and>
   \<not> Keys_roundtrip (Keys_with_checksum example_keys) \<and>
   Keys_valid (Keys_with_checksum (example_keys\<lparr>Version := 0xff02,
      Keys := [\<lparr>Group = 23, KeyExchange = []\<rparr>, \<lparr>Group = 29, KeyExchange = []\<rparr>]\<rparr>)) \<and>
   \<not> Keys_roundtrip (Keys_with_checksum (example_keys\<lparr>Version := 0xff02,
      Keys := [\<lparr>Group = 23, KeyExchange = []\<rparr>, \<lparr>Group = 29, KeyExchange = []\<rparr>]\<rparr>)) \<and>
   Keys_valid (Keys_with_checksum (example_keys\<lparr>Version := 0xff02,
      Extensions := [AddressSet [[1, 2, 3, 4]]]\<rparr>)) \<and>
   \<not> Keys_roundtrip (Keys_with_checksum (example_keys\<lparr>Version := 0xff02,
      Extensions := [AddressSet [[1, 2, 3, 4]]]\<rparr>)) \<and>
   Keys_valid (Keys_with_checksum
      (example_keys\<lparr>Version := 0xff02, NotBefore := \<lparr>unix = 1, nsec = 5\<rparr>\<rparr>)) \<and>
   \<not> Keys_roundtrip (Keys_with_checksum
      (example_keys\<lparr>Version := 0xff02, NotBefore := \<lparr>unix = 1, nsec = 5\<rparr>\<rparr>)) \<and>
   Keys_valid (Keys_with_checksum (example_keys\<lparr>Version := 0xff02,
      CipherSuites := replicate 32768 0x1301\<rparr>)) \<and>
   \<not> Keys_roundtrip (Keys_with_checksum (example_keys\<lparr>Version := 0xff02,
      CipherSuites := replicate 32768 0x1301\<rparr>)) \<and>
   Keys_valid (Keys_with_checksum (example_keys\<lparr>Version := 0xff02,
      Keys := [\<lparr>Group = 29, KeyExchange = replicate 65532 0\<rparr>]\<rparr>)) \<and>
   \<not> Keys_roundtrip (Keys_with_checksum (example_keys\<lparr>Version := 0xff02,
      Keys := [\<lparr>Group = 29, KeyExchange = replicate 65532 0\<rparr>]\<rparr>))"
proof -
  have valid: "Keys_valid (Keys_with_checksum (example_keys\<lparr>Version := 0xff02\<rparr>))"
    by (rule Keys_valid_with_checksum) (simp_all add: example_keys_def)
  show ?thesis
    by (intro conjI not_roundtrip_old_name not_roundtrip_two_shares
        not_roundtrip_one_extension not_roundtrip_nanoseconds not_roundtrip_many_suites
        not_roundtrip_long_key Keys_valid_with_checksum)
       (simp_all add: example_keys_def VersionDraft03_def)
qed

end
